theory Spec2Isabelle
  imports Main "HOL-Library.AList"
begin

section \<open>JavaScript values, errors and the spreadsheet store\<close>

text \<open>
  The partner deal backend keeps its data in a spreadsheet. A sheet is read as a grid of
  strings: a list of rows, row 0 being the header. Rows may be shorter than the header
  (the service omits trailing blank cells), and a sheet may have no rows at all.

  A JavaScript value that is either a string or \<^verbatim>\<open>undefined\<close> is a
  \<^typ>\<open>string option\<close>, with \<^term>\<open>None\<close> for \<^verbatim>\<open>undefined\<close>
  (or \<^verbatim>\<open>null\<close>). An object built by assigning properties is a map from property
  names to strings. Every such object is a plain \<^verbatim>\<open>{}\<close>: an assignment to the
  property \<^verbatim>\<open>__proto__\<close> with a string value creates no property, and a lookup
  finds the members inherited from \<^verbatim>\<open>Object.prototype\<close> besides the object's own
  properties. The code reads fixed property names only (\<^verbatim>\<open>id\<close>,
  \<^verbatim>\<open>email\<close>, \<^verbatim>\<open>status\<close> and so on), none of them inherited, so these
  reads are map lookups; the one lookup by a computed name is modelled with the inherited
  members.
\<close>

datatype js_error =
    StoreUnavailable
  | SheetNotFound string
  | ColumnNotFound string string
  | TypeError
  | JsonWebTokenError
  | TokenExpiredError
  | NotBeforeError
  | NoEmailInProfile
  | AuthenticationFailed js_error

type_synonym grid = "string list list"

text \<open>
  A value that the code puts into a row to append: a string, \<^verbatim>\<open>undefined\<close>,
  or a member inherited from \<^verbatim>\<open>Object.prototype\<close> (a function or an object),
  given by its name.
\<close>

datatype js_value = Undefined | Str string | Inherited string

type_synonym row_object = "string \<rightharpoonup> string"

text \<open>
  The spreadsheet as the service sees it: for each sheet that exists, what reading it
  yields, either the error the service call throws (the service cannot be reached or
  authorised) or the sheet's grid. Reading a sheet that does not exist throws as well.
\<close>

type_synonym store = "(string \<times> (js_error + grid)) list"

text \<open>\<^verbatim>\<open>row[index]\<close>: \<^verbatim>\<open>undefined\<close> out of range, also at index -1.\<close>

definition cell :: "string list \<Rightarrow> int \<Rightarrow> string option" where
  "cell row index =
     (if 0 \<le> index \<and> index < int (length row) then Some (row ! nat index) else None)"

text \<open>\<^verbatim>\<open>value || ''\<close> on a string or \<^verbatim>\<open>undefined\<close>.\<close>

definition or_empty :: "string option \<Rightarrow> string" where
  "or_empty v = (case v of None \<Rightarrow> [] | Some s \<Rightarrow> (if s = [] then [] else s))"

text \<open>\<^verbatim>\<open>Array.prototype.indexOf\<close>: the first position of the element, or -1.\<close>

fun indexOf_from :: "string list \<Rightarrow> string \<Rightarrow> int \<Rightarrow> int" where
  "indexOf_from [] x i = - 1"
| "indexOf_from (y # ys) x i = (if y = x then i else indexOf_from ys x (i + 1))"

definition indexOf :: "string list \<Rightarrow> string \<Rightarrow> int" where
  "indexOf xs x = indexOf_from xs x 0"

text \<open>
  \<^verbatim>\<open>rowObject[header] = value\<close> on a plain object, the value a string: the
  assignment to \<^verbatim>\<open>__proto__\<close> runs the inherited setter, which ignores a
  string, and leaves the object without such a property.
\<close>

definition assign :: "row_object \<Rightarrow> string \<Rightarrow> string \<Rightarrow> row_object" where
  "assign obj name v = (if name = ''__proto__'' then obj else obj(name \<mapsto> v))"

text \<open>
  \<^verbatim>\<open>headers.forEach((header, index) => { rowObject[header] = row[index] || ''; })\<close>:
  a later header with the same name overwrites the earlier one.
\<close>

fun forEach_header :: "string list \<Rightarrow> string list \<Rightarrow> nat \<Rightarrow> row_object \<Rightarrow> row_object" where
  "forEach_header [] row index obj = obj"
| "forEach_header (header # rest) row index obj =
     forEach_header rest row (Suc index) (assign obj header (or_empty (cell row (int index))))"

definition toRowObject :: "string list \<Rightarrow> string list \<Rightarrow> row_object" where
  "toRowObject headers row = forEach_header headers row 0 Map.empty"

subsection \<open>googleSheetsService\<close>

text \<open>
  \<^verbatim>\<open>getSheetData(sheetName)\<close> returns the grid of the sheet
  (\<^verbatim>\<open>response.data.values || []\<close>, the empty grid for a sheet without values) and
  rethrows every error of the service.
\<close>

definition getSheetData :: "store \<Rightarrow> string \<Rightarrow> js_error + grid" where
  "getSheetData st sheetName =
     (case map_of st sheetName of
        None \<Rightarrow> Inl (SheetNotFound sheetName)
      | Some (Inl e) \<Rightarrow> Inl e
      | Some (Inr values) \<Rightarrow> Inr values)"

text \<open>
  \<^verbatim>\<open>appendToSheet(sheetName, values)\<close> asks the service to append one row with
  \<^verbatim>\<open>valueInputOption: 'USER_ENTERED'\<close>. The service is external. It reads each
  value as if typed into the sheet, and what a later read returns for the cell is its
  text after that: a parameter \<open>entered\<close>, from the value sent to the text read back.
  A read omits the trailing blank cells of a row, and a row without any text adds nothing
  to the grid. The call throws where reading the sheet throws.
\<close>

fun dropTrailingBlanks :: "string list \<Rightarrow> string list" where
  "dropTrailingBlanks [] = []"
| "dropTrailingBlanks (c # cs) =
     (if c = [] \<and> dropTrailingBlanks cs = [] then [] else c # dropTrailingBlanks cs)"

definition storedRow :: "(js_value \<Rightarrow> string) \<Rightarrow> js_value list \<Rightarrow> string list" where
  "storedRow entered values = dropTrailingBlanks (map entered values)"

definition appendToSheet ::
  "(js_value \<Rightarrow> string) \<Rightarrow> store \<Rightarrow> string \<Rightarrow> js_value list \<Rightarrow> js_error + store" where
  "appendToSheet entered st sheetName values =
     (case getSheetData st sheetName of
        Inl e \<Rightarrow> Inl e
      | Inr g \<Rightarrow>
          Inr (AList.update sheetName
                 (Inr (if storedRow entered values = [] then g
                       else g @ [storedRow entered values])) st))"

text \<open>The search loop of \<^verbatim>\<open>findRowByValue\<close> over the rows after the header.\<close>

fun findRow_loop :: "string list \<Rightarrow> int \<Rightarrow> string option \<Rightarrow> grid \<Rightarrow> row_object option" where
  "findRow_loop headers columnIndex searchValue [] = None"
| "findRow_loop headers columnIndex searchValue (row # rest) =
     (if cell row columnIndex = searchValue then Some (toRowObject headers row)
      else findRow_loop headers columnIndex searchValue rest)"

definition findRowByValue ::
  "store \<Rightarrow> string \<Rightarrow> string \<Rightarrow> string option \<Rightarrow> js_error + row_object option" where
  "findRowByValue st sheetName columnName searchValue =
     (case getSheetData st sheetName of
        Inl e \<Rightarrow> Inl e
      | Inr [] \<Rightarrow> Inr None
      | Inr (headers # rows) \<Rightarrow>
          (let columnIndex = indexOf headers columnName in
           if columnIndex = - 1 then Inl (ColumnNotFound columnName sheetName)
           else Inr (findRow_loop headers columnIndex searchValue rows)))"



subsection \<open>Strings\<close>

text \<open>
  \<^verbatim>\<open>String.prototype.toLowerCase\<close> belongs to the language: it folds the
  letters of every script. It is a parameter \<open>toLowerCase\<close> of each function that
  calls it, and nothing is assumed of it.
\<close>

text \<open>\<^verbatim>\<open>s.split(sep)\<close> for a separator of one character.\<close>

fun split_from :: "char \<Rightarrow> string \<Rightarrow> string \<Rightarrow> string list" where
  "split_from sep [] piece = [piece]"
| "split_from sep (c # cs) piece =
     (if c = sep then piece # split_from sep cs [] else split_from sep cs (piece @ [c]))"

definition split :: "string \<Rightarrow> char \<Rightarrow> string list" where
  "split s sep = split_from sep s []"

text \<open>\<^verbatim>\<open>xs[i]\<close> on an array: \<^verbatim>\<open>undefined\<close> out of range.\<close>

definition element :: "'a list \<Rightarrow> nat \<Rightarrow> 'a option" where
  "element xs i = (if i < length xs then Some (xs ! i) else None)"

text \<open>Truthiness of a string or \<^verbatim>\<open>undefined\<close>, and \<^verbatim>\<open>value || fallback\<close>.\<close>

definition truthy :: "string option \<Rightarrow> bool" where
  "truthy v = (case v of None \<Rightarrow> False | Some s \<Rightarrow> s \<noteq> [])"

definition or_default :: "string option \<Rightarrow> string \<Rightarrow> string" where
  "or_default v fallback = (case v of None \<Rightarrow> fallback | Some s \<Rightarrow> (if s = [] then fallback else s))"

subsection \<open>middleware/auth\<close>

text \<open>
  The body of the \<^verbatim>\<open>try\<close> block of \<^verbatim>\<open>checkAdminStatus\<close>. The email is a
  property of the user object and may be \<^verbatim>\<open>undefined\<close>, on which
  \<^verbatim>\<open>email.toLowerCase()\<close> throws a TypeError.
\<close>

fun checkAdmin_loop :: "(string \<Rightarrow> string) \<Rightarrow> int \<Rightarrow> int \<Rightarrow> string option \<Rightarrow> grid \<Rightarrow> js_error + bool" where
  "checkAdmin_loop toLowerCase emailIndex statusIndex email [] = Inr False"
| "checkAdmin_loop toLowerCase emailIndex statusIndex email (row # rest) =
     (case cell row emailIndex of
        None \<Rightarrow> checkAdmin_loop toLowerCase emailIndex statusIndex email rest
      | Some adminEmail \<Rightarrow>
          (if adminEmail \<noteq> [] \<and> cell row statusIndex = Some ''active'' then
             (case email of
                None \<Rightarrow> Inl TypeError
              | Some e \<Rightarrow>
                  if toLowerCase adminEmail = toLowerCase e then Inr True
                  else checkAdmin_loop toLowerCase emailIndex statusIndex email rest)
           else checkAdmin_loop toLowerCase emailIndex statusIndex email rest))"

definition checkAdminStatus_try :: "(string \<Rightarrow> string) \<Rightarrow> store \<Rightarrow> string option \<Rightarrow> js_error + bool" where
  "checkAdminStatus_try toLowerCase st email =
     (case getSheetData st ''Admins'' of
        Inl e \<Rightarrow> Inl e
      | Inr adminsData \<Rightarrow>
          (if length adminsData \<le> 1 then Inr False
           else
             (let headers = hd adminsData;
                  emailIndex = indexOf headers ''email'';
                  statusIndex = indexOf headers ''status''
              in checkAdmin_loop toLowerCase emailIndex statusIndex email (tl adminsData))))"

text \<open>The \<^verbatim>\<open>catch\<close> block returns false on every error.\<close>

definition checkAdminStatus :: "(string \<Rightarrow> string) \<Rightarrow> store \<Rightarrow> string option \<Rightarrow> bool" where
  "checkAdminStatus toLowerCase st email =
     (case checkAdminStatus_try toLowerCase st email of Inl e \<Rightarrow> False | Inr b \<Rightarrow> b)"

text \<open>
  The payload of a session token, and the user object that the middleware attaches to the
  request. \<^verbatim>\<open>jwt.verify(token, process.env.JWT_SECRET)\<close> belongs to a library: it
  is a parameter \<open>verify\<close> that yields the decoded payload or the error thrown.
\<close>

record jwt_payload =
  payload_id :: "string option"
  payload_email :: "string option"
  payload_role :: "string option"
  payload_partnerId :: "string option"

record req_user =
  user_id :: "string option"
  user_email :: "string option"
  user_role :: "string option"
  user_partnerId :: "string option"
  user_firstName :: "string option"
  user_lastName :: "string option"
  user_partnerName :: "string option"

text \<open>What a middleware does with a request: it answers, or it passes the request on.\<close>

datatype 'a handled = Response nat string string | Next 'a

text \<open>\<^verbatim>\<open>authHeader && authHeader.split(' ')[1]\<close>\<close>

definition bearerToken :: "string option \<Rightarrow> string option" where
  "bearerToken authHeader =
     (case authHeader of
        None \<Rightarrow> None
      | Some h \<Rightarrow> (if h = [] then Some [] else element (split h (CHR '' '')) 1))"

definition authenticateToken_try ::
  "(string \<Rightarrow> string) \<Rightarrow> (string \<Rightarrow> js_error + jwt_payload) \<Rightarrow> store \<Rightarrow> string \<Rightarrow> js_error + req_user handled" where
  "authenticateToken_try toLowerCase verify st token =
     (case verify token of
        Inl e \<Rightarrow> Inl e
      | Inr decoded \<Rightarrow>
          (case findRowByValue st ''Users'' ''id'' (payload_id decoded) of
             Inl e \<Rightarrow> Inl e
           | Inr None \<Rightarrow>
               Inr (Response 401 ''Invalid or inactive user'' ''User account not found or inactive'')
           | Inr (Some user) \<Rightarrow>
               (if user ''status'' \<noteq> Some ''active'' then
                  Inr (Response 401 ''Invalid or inactive user'' ''User account not found or inactive'')
                else
                  (let isAdmin = checkAdminStatus toLowerCase st (user ''email'');
                       userRole = (if isAdmin then Some ''admin'' else user ''role'')
                   in Inr (Next \<lparr>user_id = user ''id'',
                                 user_email = user ''email'',
                                 user_role = userRole,
                                 user_partnerId = user ''partner_company'',
                                 user_firstName = user ''first_name'',
                                 user_lastName = user ''last_name'',
                                 user_partnerName = user ''partner_company''\<rparr>)))))"

definition authenticateToken ::
  "(string \<Rightarrow> string) \<Rightarrow> (string \<Rightarrow> js_error + jwt_payload) \<Rightarrow> store \<Rightarrow> string option \<Rightarrow> req_user handled" where
  "authenticateToken toLowerCase verify st authHeader =
     (case bearerToken authHeader of
        None \<Rightarrow> Response 401 ''Access token required'' ''Please provide a valid authentication token''
      | Some token \<Rightarrow>
          (if token = [] then
             Response 401 ''Access token required'' ''Please provide a valid authentication token''
           else
             (case authenticateToken_try toLowerCase verify st token of
                Inr r \<Rightarrow> r
              | Inl e \<Rightarrow>
                  (if e = JsonWebTokenError then
                     Response 401 ''Invalid token'' ''The provided token is invalid''
                   else if e = TokenExpiredError then
                     Response 401 ''Token expired'' ''Your session has expired. Please login again''
                   else Response 500 ''Authentication error'' ''Failed to authenticate user''))))"

text \<open>
  \<^verbatim>\<open>optionalAuth\<close> always passes the request on; the result is
  \<^verbatim>\<open>req.user\<close>, \<^verbatim>\<open>undefined\<close> when there is no token or on any error.
\<close>

definition optionalAuth_try ::
  "(string \<Rightarrow> string) \<Rightarrow> (string \<Rightarrow> js_error + jwt_payload) \<Rightarrow> store \<Rightarrow> string \<Rightarrow> js_error + req_user option" where
  "optionalAuth_try toLowerCase verify st token =
     (case verify token of
        Inl e \<Rightarrow> Inl e
      | Inr decoded \<Rightarrow>
          (case findRowByValue st ''Users'' ''id'' (payload_id decoded) of
             Inl e \<Rightarrow> Inl e
           | Inr None \<Rightarrow> Inr None
           | Inr (Some user) \<Rightarrow>
               (if user ''status'' = Some ''active'' then
                  (let isAdmin = checkAdminStatus toLowerCase st (user ''email'');
                       userRole = (if isAdmin then Some ''admin'' else user ''role'')
                   in Inr (Some \<lparr>user_id = user ''id'',
                                 user_email = user ''email'',
                                 user_role = userRole,
                                 user_partnerId = user ''partner_id'',
                                 user_firstName = user ''first_name'',
                                 user_lastName = user ''last_name'',
                                 user_partnerName = user ''partner_company''\<rparr>))
                else Inr None)))"

definition optionalAuth ::
  "(string \<Rightarrow> string) \<Rightarrow> (string \<Rightarrow> js_error + jwt_payload) \<Rightarrow> store \<Rightarrow> string option \<Rightarrow> req_user option" where
  "optionalAuth toLowerCase verify st authHeader =
     (case bearerToken authHeader of
        None \<Rightarrow> None
      | Some token \<Rightarrow>
          (if token = [] then None
           else (case optionalAuth_try toLowerCase verify st token of Inl e \<Rightarrow> None | Inr u \<Rightarrow> u)))"

subsection \<open>services/authService\<close>

definition domainMappings :: "(string \<times> string) list" where
  "domainMappings =
     [(''techflow.com'', ''TechFlow Solutions''),
      (''digitalinnovations.com'', ''Digital Innovations Inc.''),
      (''cloudware.com'', ''CloudWare Partners''),
      (''databridge.com'', ''DataBridge Consulting''),
      (''daxa.ai'', ''Daxa Internal'')]"

text \<open>
  The names that a plain object inherits from \<^verbatim>\<open>Object.prototype\<close>.
\<close>

definition objectPrototypeMembers :: "string list" where
  "objectPrototypeMembers =
     [''constructor'', ''__proto__'', ''toString'', ''toLocaleString'', ''valueOf'',
      ''hasOwnProperty'', ''isPrototypeOf'', ''propertyIsEnumerable'',
      ''__defineGetter__'', ''__defineSetter__'', ''__lookupGetter__'', ''__lookupSetter__'']"

text \<open>
  \<^verbatim>\<open>domainMappings[domain]\<close>: the table's own entry, else the inherited
  member of that name, else \<^verbatim>\<open>undefined\<close>. An \<^verbatim>\<open>undefined\<close> domain
  is looked up under the name \<^verbatim>\<open>undefined\<close>.
\<close>

definition domainMappings_lookup :: "string option \<Rightarrow> js_value" where
  "domainMappings_lookup domain =
     (let name = (case domain of None \<Rightarrow> ''undefined'' | Some d \<Rightarrow> d)
      in case map_of domainMappings name of
           Some company \<Rightarrow> Str company
         | None \<Rightarrow> (if name \<in> set objectPrototypeMembers then Inherited name else Undefined))"

text \<open>
  \<^verbatim>\<open>email.split('@')[1]?.toLowerCase()\<close>, then
  \<^verbatim>\<open>domainMappings[domain] || 'External Partner'\<close>: a function or an object is
  truthy and is returned as it is.
\<close>

definition getPartnerCompanyFromEmail :: "(string \<Rightarrow> string) \<Rightarrow> string \<Rightarrow> js_value" where
  "getPartnerCompanyFromEmail toLowerCase email =
     (let domain = map_option toLowerCase (element (split email (CHR ''@'')) 1)
      in case domainMappings_lookup domain of
           Undefined \<Rightarrow> Str ''External Partner''
         | Str company \<Rightarrow> (if company = [] then Str ''External Partner'' else Str company)
         | Inherited name \<Rightarrow> Inherited name)"

text \<open>
  The identity that the OAuth provider hands to \<^verbatim>\<open>googleLogin\<close>, and what the
  login returns. \<^verbatim>\<open>jwt.sign\<close> is a parameter \<open>sign\<close>, and the clock reading of
  \<^verbatim>\<open>getCurrentTimestamp()\<close> a parameter \<open>now\<close>.
\<close>

record profile =
  profile_email :: "string option"
  given_name :: "string option"
  family_name :: "string option"
  sub :: "string option"

record login_user =
  login_id :: "string option"
  login_email :: "string option"
  login_firstName :: "string option"
  login_lastName :: "string option"
  login_role :: "string option"
  login_partnerId :: "string option"
  login_partnerName :: "string option"

record login_result =
  login_user :: login_user
  accessToken :: string

text \<open>The row written for a new user, as the values of the array.\<close>

definition newUserData :: "(string \<Rightarrow> string) \<Rightarrow> string \<Rightarrow> profile \<Rightarrow> string \<Rightarrow> js_value list" where
  "newUserData toLowerCase now p email =
     [(case sub p of None \<Rightarrow> Undefined | Some googleId \<Rightarrow> Str googleId),
      Str email,
      Str (or_default (given_name p) ''Unknown''),
      Str (or_default (family_name p) ''User''),
      getPartnerCompanyFromEmail toLowerCase email,
      Str ''user'',
      Str ''active'',
      Str now]"

text \<open>
  The end of \<^verbatim>\<open>googleLogin\<close>, from the user row it holds: reading a property of
  \<^verbatim>\<open>null\<close> throws a TypeError.
\<close>

definition issueLogin :: "(jwt_payload \<Rightarrow> string) \<Rightarrow> row_object option \<Rightarrow> js_error + login_result" where
  "issueLogin sign user =
     (case user of
        None \<Rightarrow> Inl TypeError
      | Some u \<Rightarrow>
          (let tokenPayload = \<lparr>payload_id = u ''id'',
                               payload_email = u ''email'',
                               payload_role = u ''role'',
                               payload_partnerId = u ''partner_company''\<rparr>;
               userData = \<lparr>login_id = u ''id'',
                           login_email = u ''email'',
                           login_firstName = u ''first_name'',
                           login_lastName = u ''last_name'',
                           login_role = u ''role'',
                           login_partnerId = u ''partner_company'',
                           login_partnerName = u ''partner_company''\<rparr>
           in Inr \<lparr>login_user = userData, accessToken = sign tokenPayload\<rparr>))"

text \<open>
  The body of the \<^verbatim>\<open>try\<close> block of \<^verbatim>\<open>googleLogin\<close>, with the store it
  leaves behind: the appended row stays when a later step throws.
\<close>

definition googleLogin_try ::
  "(string \<Rightarrow> string) \<Rightarrow> (js_value \<Rightarrow> string) \<Rightarrow> (jwt_payload \<Rightarrow> string) \<Rightarrow> string \<Rightarrow> store \<Rightarrow> profile \<Rightarrow> store \<times> (js_error + login_result)" where
  "googleLogin_try toLowerCase entered sign now st p =
     (case profile_email p of
        None \<Rightarrow> (st, Inl NoEmailInProfile)
      | Some email \<Rightarrow>
          (if email = [] then (st, Inl NoEmailInProfile)
           else
             (case findRowByValue st ''Users'' ''email'' (Some email) of
                Inl e \<Rightarrow> (st, Inl e)
              | Inr (Some user) \<Rightarrow> (st, issueLogin sign (Some user))
              | Inr None \<Rightarrow>
                  (case appendToSheet entered st ''Users'' (newUserData toLowerCase now p email) of
                     Inl e \<Rightarrow> (st, Inl e)
                   | Inr st' \<Rightarrow>
                       (case findRowByValue st' ''Users'' ''email'' (Some email) of
                          Inl e \<Rightarrow> (st', Inl e)
                        | Inr user \<Rightarrow> (st', issueLogin sign user))))))"

text \<open>The \<^verbatim>\<open>catch\<close> block rethrows every error as an authentication failure.\<close>

definition googleLogin ::
  "(string \<Rightarrow> string) \<Rightarrow> (js_value \<Rightarrow> string) \<Rightarrow> (jwt_payload \<Rightarrow> string) \<Rightarrow> string \<Rightarrow> store \<Rightarrow> profile \<Rightarrow> store \<times> (js_error + login_result)" where
  "googleLogin toLowerCase entered sign now st p =
     (case googleLogin_try toLowerCase entered sign now st p of
        (st', Inl e) \<Rightarrow> (st', Inl (AuthenticationFailed e))
      | (st', Inr r) \<Rightarrow> (st', Inr r))"

subsection \<open>controllers/dealController and routes/deals\<close>

text \<open>
  The query of the list request. \<open>query_limit\<close> is the value of
  \<^verbatim>\<open>parseInt(limit)\<close>, with \<^term>\<open>None\<close> for NaN; the default limit is 50.
\<close>

record deals_query =
  query_status :: "string option"
  query_partner :: "string option"
  query_limit :: "int option"

text \<open>
  \<^verbatim>\<open>req.user?.role === 'admin' || deal.submitter_email === req.user?.email\<close>
\<close>

definition canViewDeal :: "req_user option \<Rightarrow> row_object \<Rightarrow> bool" where
  "canViewDeal user deal =
     ((case user of None \<Rightarrow> None | Some u \<Rightarrow> user_role u) = Some ''admin'' \<or>
      deal ''submitter_email'' = (case user of None \<Rightarrow> None | Some u \<Rightarrow> user_email u))"

text \<open>
  The loop of \<^verbatim>\<open>getDeals\<close>:
  \<^verbatim>\<open>for (let i = 1; i < Math.min(deals.length, parseInt(limit) + 1); i++)\<close>,
  with \<open>bound\<close> the value of the minimum.
\<close>

function getDeals_loop ::
  "grid \<Rightarrow> string list \<Rightarrow> req_user option \<Rightarrow> deals_query \<Rightarrow> int \<Rightarrow> int \<Rightarrow> row_object list \<Rightarrow> row_object list" where
  "getDeals_loop deals headers user q bound i dealRecords =
     (if i < bound then
        (let deal = toRowObject headers (deals ! nat i)
         in if \<not> canViewDeal user deal then
              getDeals_loop deals headers user q bound (i + 1) dealRecords
            else if truthy (query_status q) \<and> deal ''status'' \<noteq> query_status q then
              getDeals_loop deals headers user q bound (i + 1) dealRecords
            else if truthy (query_partner q) \<and> deal ''partner_company'' \<noteq> query_partner q then
              getDeals_loop deals headers user q bound (i + 1) dealRecords
            else getDeals_loop deals headers user q bound (i + 1) (dealRecords @ [deal]))
      else dealRecords)"
  by pat_completeness auto
termination
  by (relation "measure (\<lambda>(deals, headers, user, q, bound, i, dealRecords). nat (bound - i))") auto

declare getDeals_loop.simps [simp del]

text \<open>
  \<^verbatim>\<open>getDeals\<close>: the \<^verbatim>\<open>deals\<close> array of the response, or the error answered
  with status 500. A comparison with NaN is false, so the loop does not run then.
\<close>

definition getDeals :: "store \<Rightarrow> req_user option \<Rightarrow> deals_query \<Rightarrow> js_error + row_object list" where
  "getDeals st user q =
     (case getSheetData st ''Deals'' of
        Inl e \<Rightarrow> Inl e
      | Inr deals \<Rightarrow>
          (if length deals \<le> 1 then Inr []
           else
             (case query_limit q of
                None \<Rightarrow> Inr []
              | Some limit \<Rightarrow>
                  Inr (getDeals_loop deals (hd deals) user q
                         (min (int (length deals)) (limit + 1)) 1 []))))"

text \<open>
  The ownership filter as a function of its own: the rows that pass
  \<^verbatim>\<open>canViewDeal\<close>, in order.
\<close>

definition visibleRows :: "req_user option \<Rightarrow> row_object list \<Rightarrow> row_object list" where
  "visibleRows user rows = filter (canViewDeal user) rows"


record duplicate_check =
  hasDuplicates :: bool
  duplicates :: "row_object list"

fun checkDuplicate_loop ::
  "(string \<Rightarrow> string) \<Rightarrow> string list \<Rightarrow> int \<Rightarrow> int \<Rightarrow> int \<Rightarrow> string \<Rightarrow> string \<Rightarrow> grid \<Rightarrow> row_object list \<Rightarrow> row_object list" where
  "checkDuplicate_loop toLowerCase headers companyIndex domainIndex statusIndex companyName domain [] dups = dups"
| "checkDuplicate_loop toLowerCase headers companyIndex domainIndex statusIndex companyName domain (row # rest) dups =
     (let existingCompany = or_empty (cell row companyIndex);
          existingDomain = or_empty (cell row domainIndex);
          existingStatus = or_empty (cell row statusIndex)
      in if existingStatus \<noteq> ''rejected'' \<and>
            (toLowerCase existingCompany = toLowerCase companyName \<or>
             toLowerCase existingDomain = toLowerCase domain)
         then checkDuplicate_loop toLowerCase headers companyIndex domainIndex statusIndex companyName domain rest
                (dups @ [toRowObject headers row])
         else checkDuplicate_loop toLowerCase headers companyIndex domainIndex statusIndex companyName domain rest dups)"

text \<open>\<^verbatim>\<open>checkDuplicateDeals\<close>: every error yields the result without duplicates.\<close>

definition checkDuplicateDeals :: "(string \<Rightarrow> string) \<Rightarrow> store \<Rightarrow> string \<Rightarrow> string \<Rightarrow> duplicate_check" where
  "checkDuplicateDeals toLowerCase st companyName domain =
     (case getSheetData st ''Deals'' of
        Inl e \<Rightarrow> \<lparr>hasDuplicates = False, duplicates = []\<rparr>
      | Inr deals \<Rightarrow>
          (let dups =
             (if length deals > 1 then
                (let headers = hd deals;
                     companyIndex = indexOf headers ''company_name'';
                     domainIndex = indexOf headers ''domain'';
                     statusIndex = indexOf headers ''status''
                 in checkDuplicate_loop toLowerCase headers companyIndex domainIndex statusIndex
                      companyName domain (tl deals) [])
              else [])
           in \<lparr>hasDuplicates = length dups > 0, duplicates = dups\<rparr>))"

text \<open>
  The handler of \<^verbatim>\<open>POST /check-duplicate\<close>, given \<^verbatim>\<open>req.user\<close> and the two
  fields of the body: status 400, or the result (the message of the answer is a function
  of \<^verbatim>\<open>hasDuplicates\<close>).
\<close>

definition checkDuplicateHandler ::
  "(string \<Rightarrow> string) \<Rightarrow> store \<Rightarrow> req_user option \<Rightarrow> string option \<Rightarrow> string option \<Rightarrow> duplicate_check handled" where
  "checkDuplicateHandler toLowerCase st user companyName domain =
     (if \<not> truthy companyName \<or> \<not> truthy domain then
        Response 400 ''Company name and domain are required'' []
      else Next (checkDuplicateDeals toLowerCase st (or_empty companyName) (or_empty domain)))"

text \<open>The route: \<^verbatim>\<open>optionalAuth\<close>, then the handler.\<close>

definition checkDuplicateRoute ::
  "(string \<Rightarrow> string) \<Rightarrow> (string \<Rightarrow> js_error + jwt_payload) \<Rightarrow> store \<Rightarrow> string option \<Rightarrow> string option \<Rightarrow> string option
     \<Rightarrow> duplicate_check handled" where
  "checkDuplicateRoute toLowerCase verify st authHeader companyName domain =
     checkDuplicateHandler toLowerCase st (optionalAuth toLowerCase verify st authHeader) companyName domain"

subsection \<open>The specification's derived notions\<close>

text \<open>
  The specification's allowlist condition, in its own words: some data row of the Admins
  sheet has status \<^verbatim>\<open>active\<close> and an email equal to the given one up to letter
  case. A blank cell is no email. An unreadable, missing or empty sheet has no such row.
\<close>

definition activeAllowlistRow :: "(string \<Rightarrow> string) \<Rightarrow> string list \<Rightarrow> string \<Rightarrow> string list \<Rightarrow> bool" where
  "activeAllowlistRow toLowerCase headers email row =
     (cell row (indexOf headers ''status'') = Some ''active'' \<and>
      (case cell row (indexOf headers ''email'') of
         None \<Rightarrow> False
       | Some a \<Rightarrow> a \<noteq> [] \<and> toLowerCase a = toLowerCase email))"

definition isInAdminAllowlist :: "(string \<Rightarrow> string) \<Rightarrow> store \<Rightarrow> string \<Rightarrow> bool" where
  "isInAdminAllowlist toLowerCase st email =
     (case getSheetData st ''Admins'' of
        Inl e \<Rightarrow> False
      | Inr [] \<Rightarrow> False
      | Inr (headers # rows) \<Rightarrow> (\<exists>row\<in>set rows. activeAllowlistRow toLowerCase headers email row))"

text \<open>
  The conditions under which the loop of \<^verbatim>\<open>getDeals\<close> pushes a deal: the
  ownership check, then the status and partner filters of the query.
\<close>

definition keepsDeal :: "req_user option \<Rightarrow> deals_query \<Rightarrow> row_object \<Rightarrow> bool" where
  "keepsDeal user q deal =
     (canViewDeal user deal \<and>
      \<not> (truthy (query_status q) \<and> deal ''status'' \<noteq> query_status q) \<and>
      \<not> (truthy (query_partner q) \<and> deal ''partner_company'' \<noteq> query_partner q))"

text \<open>
  The condition under which \<^verbatim>\<open>checkDuplicateDeals\<close> reports a row: its status
  is not \<^verbatim>\<open>rejected\<close>, and its company name or its domain equals the input up
  to letter case (a missing cell counts as the empty string).
\<close>

definition isDuplicateRow :: "(string \<Rightarrow> string) \<Rightarrow> string list \<Rightarrow> string \<Rightarrow> string \<Rightarrow> string list \<Rightarrow> bool" where
  "isDuplicateRow toLowerCase headers companyName domain row =
     (or_empty (cell row (indexOf headers ''status'')) \<noteq> ''rejected'' \<and>
      (toLowerCase (or_empty (cell row (indexOf headers ''company_name''))) = toLowerCase companyName \<or>
       toLowerCase (or_empty (cell row (indexOf headers ''domain''))) = toLowerCase domain))"

subsection \<open>Example sheets\<close>

text \<open>
  For the examples: a folding of the ASCII letters in the place of
  \<^verbatim>\<open>toLowerCase\<close>, and a service that reads a string back as it was sent and
  leaves the cell of any other value blank.
\<close>

definition asciiLowerCase_char :: "char \<Rightarrow> char" where
  "asciiLowerCase_char c =
     (let n = (of_char c :: nat) in if 65 \<le> n \<and> n \<le> 90 then char_of (n + 32) else c)"

fun asciiLowerCase :: "string \<Rightarrow> string" where
  "asciiLowerCase [] = []"
| "asciiLowerCase (c # cs) = asciiLowerCase_char c # asciiLowerCase cs"

fun example_entered :: "js_value \<Rightarrow> string" where
  "example_entered (Str s) = s"
| "example_entered Undefined = []"
| "example_entered (Inherited name) = []"

text \<open>A service that reads a number back without its leading zeros.\<close>

fun example_entered_number :: "js_value \<Rightarrow> string" where
  "example_entered_number (Str s) = (if s = ''007'' then ''7'' else s)"
| "example_entered_number Undefined = []"
| "example_entered_number (Inherited name) = []"

definition example_users :: grid where
  "example_users =
     [[''id'', ''email'', ''role'', ''status''],
      [''u1'', ''a@x.com'', ''user''],
      [''u2'', ''b@x.com'', ''user'', ''active'']]"

definition example_deals :: grid where
  "example_deals =
     [[''id'', ''status'', ''company_name'', ''domain'', ''submitter_email''],
      [''d1'', ''submitted'', ''Acme'', ''acme.com'', ''b@x.com''],
      [''d2'', ''rejected'', ''Beta'', ''beta.io'', ''a@x.com''],
      [''d3'', ''approved'', ''Gamma'', ''gamma.org'', ''b@x.com'']]"

definition example_store :: store where
  "example_store =
     [(''Users'', Inr example_users),
      (''Admins'', Inr [[''email'', ''status'']]),
      (''Deals'', Inr example_deals)]"

definition example_store_admin :: store where
  "example_store_admin =
     [(''Users'', Inr example_users),
      (''Admins'', Inr [[''email'', ''status''], [''B@X.com'', ''active'']]),
      (''Deals'', Inr example_deals)]"

definition example_store_unreadable_admins :: store where
  "example_store_unreadable_admins =
     [(''Users'', Inr example_users),
      (''Admins'', Inl StoreUnavailable)]"

definition example_payload :: jwt_payload where
  "example_payload =
     \<lparr>payload_id = Some ''u2'', payload_email = Some ''b@x.com'',
      payload_role = Some ''user'', payload_partnerId = None\<rparr>"

fun example_verify :: "string \<Rightarrow> js_error + jwt_payload" where
  "example_verify token =
     (if token = ''good'' then Inr example_payload else Inl JsonWebTokenError)"


definition example_partner :: req_user where
  "example_partner =
     \<lparr>user_id = Some ''u2'', user_email = Some ''b@x.com'', user_role = Some ''user'',
      user_partnerId = None, user_firstName = None, user_lastName = None,
      user_partnerName = None\<rparr>"

definition example_query :: deals_query where
  "example_query = \<lparr>query_status = None, query_partner = None, query_limit = Some 2\<rparr>"

definition example_deal_objects :: "row_object list" where
  "example_deal_objects = map (toRowObject (hd example_deals)) (tl example_deals)"

definition users_header :: "string list" where
  "users_header =
     [''id'', ''email'', ''first_name'', ''last_name'', ''partner_company'', ''role'',
      ''status'', ''created_at'']"

definition example_login_store :: store where
  "example_login_store = [(''Users'', Inr [users_header])]"

definition example_profile :: profile where
  "example_profile =
     \<lparr>profile_email = Some ''c@TechFlow.com'', given_name = None,
      family_name = Some ''Wu'', sub = Some ''g3''\<rparr>"

fun example_sign :: "jwt_payload \<Rightarrow> string" where
  "example_sign payload = or_empty (payload_id payload)"

section \<open>Properties of the row objects\<close>

lemma indexOf_from_notin: "x \<notin> set xs \<Longrightarrow> indexOf_from xs x i = - 1"
  by (induction xs x i rule: indexOf_from.induct) auto

lemma indexOf_from_in:
  "x \<in> set xs \<Longrightarrow> \<exists>k<length xs. indexOf_from xs x i = i + int k \<and> xs ! k = x \<and> (\<forall>j<k. xs ! j \<noteq> x)"
proof (induction xs x i rule: indexOf_from.induct)
  case (1 x i)
  then show ?case by simp
next
  case (2 y ys x i)
  show ?case
  proof (cases "y = x")
    case True
    then show ?thesis by (intro exI[of _ 0]) simp
  next
    case False
    with 2 obtain k where k: "k < length ys" "indexOf_from ys x (i + 1) = i + 1 + int k"
      "ys ! k = x" "\<forall>j<k. ys ! j \<noteq> x" by auto
    show ?thesis
    proof (intro exI[of _ "Suc k"] conjI allI impI)
      fix j assume "j < Suc k"
      then show "(y # ys) ! j \<noteq> x" using False k(4) by (cases j) auto
    qed (use False k in auto)
  qed
qed

lemma indexOf_minus_one: "0 \<le> i \<Longrightarrow> indexOf_from xs x i = - 1 \<longleftrightarrow> x \<notin> set xs"
  using indexOf_from_notin[of x xs i] indexOf_from_in[of x xs i] by auto

lemma indexOf_eq_minus_one: "indexOf xs x = - 1 \<longleftrightarrow> x \<notin> set xs"
  by (simp add: indexOf_def indexOf_minus_one)

lemma indexOf_first:
  "x \<in> set xs \<Longrightarrow> \<exists>k<length xs. indexOf xs x = int k \<and> xs ! k = x \<and> (\<forall>j<k. xs ! j \<noteq> x)"
  using indexOf_from_in[of x xs 0] by (simp add: indexOf_def)

lemma indexOf_distinct: "distinct xs \<Longrightarrow> k < length xs \<Longrightarrow> indexOf xs (xs ! k) = int k"
proof -
  assume d: "distinct xs" and k: "k < length xs"
  then have "xs ! k \<in> set xs" by simp
  from indexOf_first[OF this] obtain k' where k': "k' < length xs" "indexOf xs (xs ! k) = int k'" "xs ! k' = xs ! k"
    by auto
  with d k have "k' = k" by (simp add: nth_eq_iff_index_eq)
  with k' show ?thesis by simp
qed

lemma dom_forEach_header:
  "dom (forEach_header hs row i obj) = dom obj \<union> (set hs - {''__proto__''})"
  by (induction hs arbitrary: i obj) (auto simp: assign_def)

lemma dom_toRowObject: "dom (toRowObject headers row) = set headers - {''__proto__''}"
  by (simp add: toRowObject_def assign_def dom_forEach_header)

lemma forEach_header_notin: "key \<notin> set hs \<Longrightarrow> forEach_header hs row i obj key = obj key"
  by (induction hs arbitrary: i obj) (auto simp: assign_def)



lemma forEach_header_nth:
  "distinct hs \<Longrightarrow> k < length hs \<Longrightarrow> hs ! k \<noteq> ''__proto__'' \<Longrightarrow>
   forEach_header hs row i obj (hs ! k) = Some (or_empty (cell row (int (i + k))))"
proof (induction hs arbitrary: k i obj)
  case Nil
  then show ?case by simp
next
  case (Cons header rest)
  show ?case
  proof (cases k)
    case 0
    with Cons.prems show ?thesis by (simp add: forEach_header_notin assign_def)
  next
    case (Suc k')
    with Cons.prems have "forEach_header rest row (Suc i)
        (assign obj header (or_empty (cell row (int i)))) (rest ! k') =
        Some (or_empty (cell row (int (Suc i + k'))))"
      by (intro Cons.IH) auto
    with Suc show ?thesis by simp
  qed
qed

lemma toRowObject_nth:
  "distinct headers \<Longrightarrow> k < length headers \<Longrightarrow> headers ! k \<noteq> ''__proto__'' \<Longrightarrow>
   toRowObject headers row (headers ! k) = Some (or_empty (cell row (int k)))"
  by (simp add: toRowObject_def assign_def forEach_header_nth)

lemma or_empty_simps: "or_empty None = []" "or_empty (Some s) = s"
  by (simp_all add: or_empty_def)

lemma findRow_loop_find:
  "findRow_loop headers columnIndex searchValue rows =
     map_option (toRowObject headers) (find (\<lambda>row. cell row columnIndex = searchValue) rows)"
  by (induction rows) auto


lemma cell_Some_iff: "cell row (int k) = Some v \<longleftrightarrow> k < length row \<and> row ! k = v"
  by (auto simp: cell_def)

lemma or_empty_cell: "or_empty (cell row (int k)) = (if k < length row then row ! k else [])"
  by (simp add: cell_def or_empty_simps)

section \<open>The tabular store\<close>

text \<open>
  Claim C5, as the code has it. On a sheet with a header row, \<^verbatim>\<open>findRowByValue\<close>
  throws the column-not-found error when the column name is not in the header; otherwise,
  with \<open>k\<close> the first position of the name in the header, it returns the object of the
  first data row whose cell \<open>k\<close> is present and equal to the searched string, and it
  returns an object exactly when such a row exists. On a sheet without any row it returns
  null, whatever the column name.
\<close>

theorem findRowByValue_first_match:
  "getSheetData st sheetName = Inr data \<Longrightarrow>
   (data = [] \<longrightarrow> findRowByValue st sheetName columnName (Some v) = Inr None) \<and>
   (\<forall>headers rows. data = headers # rows \<longrightarrow>
      (columnName \<notin> set headers \<longrightarrow>
         findRowByValue st sheetName columnName (Some v) = Inl (ColumnNotFound columnName sheetName)) \<and>
      (columnName \<in> set headers \<longrightarrow>
         (\<exists>k<length headers. headers ! k = columnName \<and> (\<forall>j<k. headers ! j \<noteq> columnName) \<and>
            findRowByValue st sheetName columnName (Some v) =
              Inr (map_option (toRowObject headers) (find (\<lambda>row. k < length row \<and> row ! k = v) rows)) \<and>
            ((\<exists>obj. findRowByValue st sheetName columnName (Some v) = Inr (Some obj)) \<longleftrightarrow>
             (\<exists>row\<in>set rows. k < length row \<and> row ! k = v)))))"
proof (intro conjI allI impI)
  assume "getSheetData st sheetName = Inr data" "data = []"
  then show "findRowByValue st sheetName columnName (Some v) = Inr None"
    by (simp add: findRowByValue_def)
next
  fix headers rows
  assume d: "getSheetData st sheetName = Inr data" "data = headers # rows"
  { assume "columnName \<notin> set headers"
    with d show "findRowByValue st sheetName columnName (Some v) = Inl (ColumnNotFound columnName sheetName)"
      by (simp add: findRowByValue_def indexOf_eq_minus_one) }
  { assume "columnName \<in> set headers"
    from indexOf_first[OF this] obtain k where k: "k < length headers"
      "indexOf headers columnName = int k" "headers ! k = columnName" "\<forall>j<k. headers ! j \<noteq> columnName"
      by auto
    have res: "findRowByValue st sheetName columnName (Some v) =
        Inr (map_option (toRowObject headers) (find (\<lambda>row. k < length row \<and> row ! k = v) rows))"
      using d k by (simp add: findRowByValue_def findRow_loop_find cell_Some_iff)
    have "(\<exists>obj. findRowByValue st sheetName columnName (Some v) = Inr (Some obj)) \<longleftrightarrow>
             (\<exists>row\<in>set rows. k < length row \<and> row ! k = v)"
      unfolding res using find_None_iff[of "\<lambda>row. k < length row \<and> row ! k = v" rows]
      by (cases "find (\<lambda>row. k < length row \<and> row ! k = v) rows") auto
    with k res show "\<exists>k<length headers. headers ! k = columnName \<and> (\<forall>j<k. headers ! j \<noteq> columnName) \<and>
            findRowByValue st sheetName columnName (Some v) =
              Inr (map_option (toRowObject headers) (find (\<lambda>row. k < length row \<and> row ! k = v) rows)) \<and>
            ((\<exists>obj. findRowByValue st sheetName columnName (Some v) = Inr (Some obj)) \<longleftrightarrow>
             (\<exists>row\<in>set rows. k < length row \<and> row ! k = v))"
      by blast }
qed

theorem findRowByValue_first_match_witness:
  "getSheetData example_store ''Users'' = Inr example_users \<and>
   findRowByValue example_store ''Users'' ''phone'' (Some ''1'') = Inl (ColumnNotFound ''phone'' ''Users'') \<and>
   (case findRowByValue example_store ''Users'' ''email'' (Some ''b@x.com'') of
      Inr (Some obj) \<Rightarrow> obj ''id'' = Some ''u2'' | _ \<Rightarrow> False)"
proof -
  have h: "getSheetData example_store ''Users'' = Inr example_users"
    by (simp add: getSheetData_def example_store_def)
  have a: "findRowByValue example_store ''Users'' ''phone'' (Some ''1'') = Inl (ColumnNotFound ''phone'' ''Users'')"
    using findRowByValue_first_match[OF h, of "''phone''" "''1''"]
    by (simp add: example_users_def)
  have b: "(case findRowByValue example_store ''Users'' ''email'' (Some ''b@x.com'') of
      Inr (Some obj) \<Rightarrow> obj ''id'' = Some ''u2'' | _ \<Rightarrow> False)"
    using findRowByValue_first_match[OF h, of "''email''" "''b@x.com''"]
    by (simp add: findRowByValue_def h example_users_def indexOf_def cell_def toRowObject_def assign_def
          or_empty_def assign_def)
  from h a b show ?thesis by blast
qed

text \<open>
  The claim as written asks for the column-not-found error whenever the column is not in
  the header. A sheet without rows has no header at all, and the lookup returns null there.
\<close>

theorem findRowByValue_empty_grid_counterexample:
  "findRowByValue [(''Users'', Inr [])] ''Users'' ''email'' (Some ''a@x.com'') = Inr None \<and>
   findRowByValue [(''Users'', Inr [])] ''Users'' ''email'' (Some ''a@x.com'')
     \<noteq> Inl (ColumnNotFound ''email'' ''Users'')"
  by (simp add: findRowByValue_def getSheetData_def)




section \<open>Authorisation\<close>

lemma checkAdmin_loop_Some:
  "checkAdmin_loop toLowerCase emailIndex statusIndex (Some e) rows =
     Inr (\<exists>row\<in>set rows. cell row statusIndex = Some ''active'' \<and>
            (case cell row emailIndex of None \<Rightarrow> False
             | Some a \<Rightarrow> a \<noteq> [] \<and> toLowerCase a = toLowerCase e))"
  by (induction rows) (auto split: option.splits)

lemma checkAdmin_loop_None:
  "checkAdmin_loop toLowerCase emailIndex statusIndex None rows = Inr False \<or>
   checkAdmin_loop toLowerCase emailIndex statusIndex None rows = Inl TypeError"
  by (induction rows) (auto split: option.splits)

lemma checkAdminStatus_None: "checkAdminStatus toLowerCase st None = False"
proof -
  have "checkAdminStatus_try toLowerCase st None = Inr False \<or> (\<exists>e. checkAdminStatus_try toLowerCase st None = Inl e)"
    using checkAdmin_loop_None[where toLowerCase = toLowerCase]
    by (auto simp: checkAdminStatus_try_def Let_def split: sum.splits)
  then show ?thesis by (auto simp: checkAdminStatus_def)
qed

lemma checkAdminStatus_allowlist:
  "checkAdminStatus toLowerCase st (Some e) = isInAdminAllowlist toLowerCase st e"
proof (cases "getSheetData st ''Admins''")
  case (Inl err)
  then show ?thesis
    by (simp add: checkAdminStatus_def checkAdminStatus_try_def isInAdminAllowlist_def)
next
  case (Inr adminsData)
  show ?thesis
  proof (cases adminsData)
    case Nil
    with Inr show ?thesis
      by (simp add: checkAdminStatus_def checkAdminStatus_try_def isInAdminAllowlist_def)
  next
    case (Cons headers rows)
    have "checkAdminStatus_try toLowerCase st (Some e) =
            Inr (\<exists>row\<in>set rows. activeAllowlistRow toLowerCase headers e row)"
      using Inr Cons
      by (simp add: checkAdminStatus_try_def checkAdmin_loop_Some activeAllowlistRow_def Let_def
            del: checkAdmin_loop.simps)
    with Inr Cons show ?thesis
      by (simp add: checkAdminStatus_def isInAdminAllowlist_def)
  qed
qed

lemma activeAllowlistRow_cong:
  "toLowerCase email1 = toLowerCase email2 \<Longrightarrow>
   activeAllowlistRow toLowerCase headers email1 row = activeAllowlistRow toLowerCase headers email2 row"
  by (simp add: activeAllowlistRow_def split: option.splits)

lemma activeAllowlistRow_iff:
  "activeAllowlistRow toLowerCase headers e row \<longleftrightarrow>
     cell row (indexOf headers ''status'') = Some ''active'' \<and>
     (\<exists>a. cell row (indexOf headers ''email'') = Some a \<and> a \<noteq> [] \<and>
          toLowerCase a = toLowerCase e)"
  by (cases "cell row (indexOf headers ''email'')") (simp_all add: activeAllowlistRow_def)

lemma checkAdminStatus_rows:
  "getSheetData st ''Admins'' = Inr (headers # rows) \<Longrightarrow>
   checkAdminStatus toLowerCase st (Some e) \<longleftrightarrow> (\<exists>row\<in>set rows. activeAllowlistRow toLowerCase headers e row)"
  by (simp add: checkAdminStatus_allowlist isInAdminAllowlist_def)

lemma isInAdminAllowlist_cong:
  "toLowerCase email1 = toLowerCase email2 \<Longrightarrow>
   isInAdminAllowlist toLowerCase st email1 = isInAdminAllowlist toLowerCase st email2"
proof -
  assume h: "toLowerCase email1 = toLowerCase email2"
  have eq: "activeAllowlistRow toLowerCase headers email1 = activeAllowlistRow toLowerCase headers email2" for headers
    using activeAllowlistRow_cong[where toLowerCase = toLowerCase, OF h] by (intro ext)
  show ?thesis unfolding isInAdminAllowlist_def eq ..
qed

lemma checkAdminStatus_unreadable:
  "getSheetData st ''Admins'' = Inl err \<Longrightarrow> checkAdminStatus toLowerCase st email = False"
  by (simp add: checkAdminStatus_def checkAdminStatus_try_def)

lemma authenticateToken_active_user:
  assumes "bearerToken authHeader = Some token" "token \<noteq> []" "verify token = Inr decoded"
    "findRowByValue st ''Users'' ''id'' (payload_id decoded) = Inr (Some user)"
    "user ''status'' = Some ''active''"
  shows "authenticateToken toLowerCase verify st authHeader =
           Next \<lparr>user_id = user ''id'',
                 user_email = user ''email'',
                 user_role = (if checkAdminStatus toLowerCase st (user ''email'') then Some ''admin'' else user ''role''),
                 user_partnerId = user ''partner_company'',
                 user_firstName = user ''first_name'',
                 user_lastName = user ''last_name'',
                 user_partnerName = user ''partner_company''\<rparr>"
  using assms by (simp add: authenticateToken_def authenticateToken_try_def Let_def)

lemma example_lower: "asciiLowerCase ''B@X.com'' = asciiLowerCase ''b@x.com''"
  by code_simp

lemma example_bearer: "bearerToken (Some ''Bearer good'') = Some ''good''"
  by code_simp

lemma example_user_row:
  "findRowByValue example_store ''Users'' ''id'' (payload_id example_payload) =
     Inr (Some (toRowObject (hd example_users) (example_users ! 2)))"
  "findRowByValue example_store_admin ''Users'' ''id'' (payload_id example_payload) =
     Inr (Some (toRowObject (hd example_users) (example_users ! 2)))"
  "findRowByValue example_store_unreadable_admins ''Users'' ''id'' (payload_id example_payload) =
     Inr (Some (toRowObject (hd example_users) (example_users ! 2)))"
  by (simp_all add: findRowByValue_def getSheetData_def example_store_def example_store_admin_def
        example_store_unreadable_admins_def example_users_def example_payload_def indexOf_def cell_def)

lemma example_user_fields:
  "toRowObject (hd example_users) (example_users ! 2) ''status'' = Some ''active''"
  "toRowObject (hd example_users) (example_users ! 2) ''email'' = Some ''b@x.com''"
  "toRowObject (hd example_users) (example_users ! 2) ''role'' = Some ''user''"
  by (simp_all add: example_users_def toRowObject_def assign_def cell_def or_empty_def)




text \<open>
  Claim C3. When reading the Admins sheet throws, whatever the error,
  \<^verbatim>\<open>checkAdminStatus\<close> returns false, and a request with a valid token of an
  active user is passed on with the role stored in the user row.
\<close>

theorem checkAdminStatus_fail_open:
  assumes "getSheetData st ''Admins'' = Inl err"
  shows "checkAdminStatus toLowerCase st email = False \<and>
         (bearerToken authHeader = Some token \<and> token \<noteq> [] \<and> verify token = Inr decoded \<and>
          findRowByValue st ''Users'' ''id'' (payload_id decoded) = Inr (Some user) \<and>
          user ''status'' = Some ''active'' \<longrightarrow>
            (\<exists>u. authenticateToken toLowerCase verify st authHeader = Next u \<and> user_role u = user ''role''))"
proof (intro conjI impI)
  show a: "checkAdminStatus toLowerCase st email = False" using assms by (rule checkAdminStatus_unreadable)
  assume h: "bearerToken authHeader = Some token \<and> token \<noteq> [] \<and> verify token = Inr decoded \<and>
          findRowByValue st ''Users'' ''id'' (payload_id decoded) = Inr (Some user) \<and>
          user ''status'' = Some ''active''"
  have "checkAdminStatus toLowerCase st (user ''email'') = False" using assms by (rule checkAdminStatus_unreadable)
  with h authenticateToken_active_user[where toLowerCase = toLowerCase and authHeader = authHeader
      and token = token and verify = verify and decoded = decoded and st = st and user = user]
  show "\<exists>u. authenticateToken toLowerCase verify st authHeader = Next u \<and> user_role u = user ''role''"
    by simp
qed

theorem checkAdminStatus_fail_open_witness:
  "getSheetData example_store_unreadable_admins ''Admins'' = Inl StoreUnavailable \<and>
   checkAdminStatus asciiLowerCase example_store_unreadable_admins (Some ''b@x.com'') = False \<and>
   (\<exists>u. authenticateToken asciiLowerCase example_verify example_store_unreadable_admins (Some ''Bearer good'') = Next u \<and>
        user_role u = Some ''user'')"
proof -
  have h: "getSheetData example_store_unreadable_admins ''Admins'' = Inl StoreUnavailable"
    by (simp add: getSheetData_def example_store_unreadable_admins_def)
  have v: "example_verify ''good'' = Inr example_payload" and g: "''good'' \<noteq> []" by simp_all
  from checkAdminStatus_fail_open[OF h, where toLowerCase = asciiLowerCase
      and email = "Some ''b@x.com''" and authHeader = "Some ''Bearer good''" and token = "''good''"
      and verify = example_verify and decoded = example_payload
      and user = "toRowObject (hd example_users) (example_users ! 2)"]
  show ?thesis using h v g example_bearer example_user_row(3) example_user_fields
    by simp
qed

text \<open>
  Claim C4, as the code has it. Two emails that \<^verbatim>\<open>toLowerCase\<close> maps to the
  same string, that is, emails that differ only in letter case, get the same answer from
  \<^verbatim>\<open>checkAdminStatus\<close>, whatever the store. On an Admins sheet with a header,
  the answer is true exactly when some data row has status \<^verbatim>\<open>active\<close> and a
  non-blank email cell equal to the queried email up to letter case. The answer is false,
  and no error, when reading the sheet throws (the sheet is absent) and when the sheet has
  no data rows.
\<close>

theorem checkAdminStatus_case_insensitive:
  "(toLowerCase email1 = toLowerCase email2 \<longrightarrow>
      checkAdminStatus toLowerCase st (Some email1) = checkAdminStatus toLowerCase st (Some email2)) \<and>
   (\<forall>headers rows. getSheetData st ''Admins'' = Inr (headers # rows) \<longrightarrow>
      (checkAdminStatus toLowerCase st (Some email1) \<longleftrightarrow>
         (\<exists>row\<in>set rows. cell row (indexOf headers ''status'') = Some ''active'' \<and>
            (\<exists>a. cell row (indexOf headers ''email'') = Some a \<and> a \<noteq> [] \<and>
                 toLowerCase a = toLowerCase email1)))) \<and>
   ((\<exists>err. getSheetData st ''Admins'' = Inl err) \<longrightarrow>
      checkAdminStatus toLowerCase st (Some email1) = False) \<and>
   ((\<exists>data. getSheetData st ''Admins'' = Inr data \<and> length data \<le> 1) \<longrightarrow>
      checkAdminStatus toLowerCase st (Some email1) = False)"
proof (intro conjI allI impI)
  assume "toLowerCase email1 = toLowerCase email2"
  then have "isInAdminAllowlist toLowerCase st email1 = isInAdminAllowlist toLowerCase st email2"
    by (rule isInAdminAllowlist_cong)
  then show "checkAdminStatus toLowerCase st (Some email1) = checkAdminStatus toLowerCase st (Some email2)"
    by (simp only: checkAdminStatus_allowlist)
next
  fix headers rows
  assume h: "getSheetData st ''Admins'' = Inr (headers # rows)"
  show "checkAdminStatus toLowerCase st (Some email1) \<longleftrightarrow>
         (\<exists>row\<in>set rows. cell row (indexOf headers ''status'') = Some ''active'' \<and>
            (\<exists>a. cell row (indexOf headers ''email'') = Some a \<and> a \<noteq> [] \<and>
                 toLowerCase a = toLowerCase email1))"
    unfolding checkAdminStatus_rows[OF h] activeAllowlistRow_iff ..
next
  assume "\<exists>err. getSheetData st ''Admins'' = Inl err"
  then obtain err where "getSheetData st ''Admins'' = Inl err" by blast
  then show "checkAdminStatus toLowerCase st (Some email1) = False"
    by (rule checkAdminStatus_unreadable)
next
  assume "\<exists>data. getSheetData st ''Admins'' = Inr data \<and> length data \<le> 1"
  then obtain data where "getSheetData st ''Admins'' = Inr data" "length data \<le> 1" by blast
  then show "checkAdminStatus toLowerCase st (Some email1) = False"
    by (simp add: checkAdminStatus_def checkAdminStatus_try_def)
qed

theorem checkAdminStatus_case_insensitive_witness:
  "asciiLowerCase ''B@X.com'' = asciiLowerCase ''b@x.com'' \<and>
   checkAdminStatus asciiLowerCase example_store_admin (Some ''B@X.com'') \<and>
   checkAdminStatus asciiLowerCase example_store_admin (Some ''b@x.com'') \<and>
   \<not> checkAdminStatus asciiLowerCase example_store (Some ''b@x.com'') \<and>
   \<not> checkAdminStatus asciiLowerCase example_store_unreadable_admins (Some ''b@x.com'') \<and>
   \<not> checkAdminStatus asciiLowerCase example_login_store (Some ''b@x.com'')"
proof -
  have g: "getSheetData example_store_admin ''Admins'' = Inr [[''email'', ''status''], [''B@X.com'', ''active'']]"
    by (simp add: getSheetData_def example_store_admin_def)
  have g0: "getSheetData example_store ''Admins'' = Inr [[''email'', ''status'']]"
    by (simp add: getSheetData_def example_store_def)
  have g1: "getSheetData example_store_unreadable_admins ''Admins'' = Inl StoreUnavailable"
    by (simp add: getSheetData_def example_store_unreadable_admins_def)
  have g2: "getSheetData example_login_store ''Admins'' = Inl (SheetNotFound ''Admins'')"
    by (simp add: getSheetData_def example_login_store_def)
  note t = checkAdminStatus_case_insensitive[where toLowerCase = asciiLowerCase
      and ?email1.0 = "''b@x.com''" and ?email2.0 = "''B@X.com''" and st = example_store_admin]
  have a: "checkAdminStatus asciiLowerCase example_store_admin (Some ''b@x.com'')"
    using t[THEN conjunct2, THEN conjunct1, rule_format, OF g] example_lower
    by (simp add: indexOf_def cell_def)
  have b: "checkAdminStatus asciiLowerCase example_store_admin (Some ''B@X.com'')"
    using t[THEN conjunct1] a example_lower[symmetric] by blast
  have c: "\<not> checkAdminStatus asciiLowerCase example_store (Some ''b@x.com'')"
    using checkAdminStatus_case_insensitive[where toLowerCase = asciiLowerCase
        and ?email1.0 = "''b@x.com''" and st = example_store,
        THEN conjunct2, THEN conjunct2, THEN conjunct2] g0
    by simp
  have d: "\<not> checkAdminStatus asciiLowerCase example_store_unreadable_admins (Some ''b@x.com'')"
    using checkAdminStatus_case_insensitive[where toLowerCase = asciiLowerCase
        and ?email1.0 = "''b@x.com''" and st = example_store_unreadable_admins,
        THEN conjunct2, THEN conjunct2, THEN conjunct1] g1
    by simp
  have e: "\<not> checkAdminStatus asciiLowerCase example_login_store (Some ''b@x.com'')"
    using checkAdminStatus_case_insensitive[where toLowerCase = asciiLowerCase
        and ?email1.0 = "''b@x.com''" and st = example_login_store,
        THEN conjunct2, THEN conjunct2, THEN conjunct1] g2
    by simp
  from a b c d e example_lower show ?thesis by blast
qed

text \<open>
  The claim as written makes the answer true whenever some active row has an email equal
  to the queried one up to letter case. An active row with a blank email cell is skipped by
  the guard \<^verbatim>\<open>adminEmail &&\<close>, so the empty queried email, equal to that cell, is
  answered false.
\<close>

theorem checkAdminStatus_blank_cell_counterexample:
  "getSheetData [(''Admins'', Inr [[''email'', ''status''], ['''', ''active'']])] ''Admins'' =
     Inr [[''email'', ''status''], ['''', ''active'']] \<and>
   cell ['''', ''active''] (indexOf [''email'', ''status''] ''status'') = Some ''active'' \<and>
   cell ['''', ''active''] (indexOf [''email'', ''status''] ''email'') = Some '''' \<and>
   asciiLowerCase '''' = asciiLowerCase '''' \<and>
   \<not> checkAdminStatus asciiLowerCase
       [(''Admins'', Inr [[''email'', ''status''], ['''', ''active'']])] (Some '''')"
  by (simp add: getSheetData_def checkAdminStatus_def checkAdminStatus_try_def indexOf_def cell_def)

section \<open>Deals: ownership, limit and duplicate check\<close>

lemma getDeals_loop_step:
  "i < bound \<Longrightarrow>
   getDeals_loop deals headers user q bound i dealRecords =
     getDeals_loop deals headers user q bound (i + 1)
       (if keepsDeal user q (toRowObject headers (deals ! nat i))
        then dealRecords @ [toRowObject headers (deals ! nat i)] else dealRecords)"
  by (subst getDeals_loop.simps) (simp add: keepsDeal_def Let_def)

lemma getDeals_loop_done:
  "\<not> i < bound \<Longrightarrow> getDeals_loop deals headers user q bound i dealRecords = dealRecords"
  by (subst getDeals_loop.simps) simp

lemma getDeals_loop_filter:
  "0 \<le> i \<Longrightarrow> bound \<le> int (length deals) \<Longrightarrow>
   getDeals_loop deals headers user q bound i dealRecords =
     dealRecords @ filter (keepsDeal user q)
       (map (toRowObject headers) (take (nat (bound - i)) (drop (nat i) deals)))"
proof (induction "nat (bound - i)" arbitrary: i dealRecords)
  case 0
  then have "\<not> i < bound" by linarith
  with 0 show ?case by (simp add: getDeals_loop_done)
next
  case (Suc n)
  then have lt: "i < bound" by linarith
  have idx: "nat i < length deals" using lt Suc.prems by linarith
  have n1: "nat (bound - i) = Suc (nat (bound - (i + 1)))" using lt by linarith
  have n2: "nat (i + 1) = Suc (nat i)" using Suc.prems by linarith
  have unroll: "take (nat (bound - i)) (drop (nat i) deals) =
      deals ! nat i # take (nat (bound - (i + 1))) (drop (nat (i + 1)) deals)"
  proof -
    have "drop (nat i) deals = deals ! nat i # drop (Suc (nat i)) deals"
      using idx by (simp add: Cons_nth_drop_Suc)
    then show ?thesis by (simp add: n1 n2)
  qed
  have m: "n = nat (bound - (i + 1))" using Suc.hyps(2) by linarith
  have p: "0 \<le> i + 1" using Suc.prems by linarith
  note IH = Suc.hyps(1)[OF m p Suc.prems(2)]
  show ?case
    unfolding getDeals_loop_step[OF lt] IH unroll by simp
qed

lemma getDeals_first_rows:
  assumes "getSheetData st ''Deals'' = Inr (headers # rows)"
  shows "getDeals st user q =
     Inr (filter (keepsDeal user q)
            (map (toRowObject headers)
               (take (case query_limit q of None \<Rightarrow> 0 | Some limit \<Rightarrow> nat limit) rows)))"
proof (cases rows)
  case Nil
  with assms show ?thesis by (simp add: getDeals_def)
next
  case (Cons r rs)
  show ?thesis
  proof (cases "query_limit q")
    case None
    with assms Cons show ?thesis by (simp add: getDeals_def)
  next
    case (Some limit)
    let ?deals = "headers # rows"
    let ?bound = "min (int (length ?deals)) (limit + 1)"
    have "getDeals st user q = Inr (getDeals_loop ?deals headers user q ?bound 1 [])"
      using assms Cons Some by (simp add: getDeals_def)
    also have "getDeals_loop ?deals headers user q ?bound 1 [] =
        filter (keepsDeal user q) (map (toRowObject headers) (take (nat (?bound - 1)) (drop (nat 1) ?deals)))"
      by (subst getDeals_loop_filter) simp_all
    also have "take (nat (?bound - 1)) (drop (nat 1) ?deals) = take (nat limit) rows"
    proof (cases "int (length rows) \<le> limit")
      case True
      then show ?thesis by (simp add: min_def)
    next
      case False
      then show ?thesis by (simp add: min_def)
    qed
    finally show ?thesis using Some by simp
  qed
qed

lemma checkDuplicate_loop_filter:
  "checkDuplicate_loop toLowerCase headers (indexOf headers ''company_name'') (indexOf headers ''domain'')
     (indexOf headers ''status'') companyName domain rows dups =
   dups @ map (toRowObject headers) (filter (isDuplicateRow toLowerCase headers companyName domain) rows)"
  by (induction rows arbitrary: dups) (simp_all add: isDuplicateRow_def Let_def)

lemma checkDuplicateDeals_rows:
  "getSheetData st ''Deals'' = Inr (headers # rows) \<Longrightarrow>
   duplicates (checkDuplicateDeals toLowerCase st companyName domain) =
     map (toRowObject headers) (filter (isDuplicateRow toLowerCase headers companyName domain) rows) \<and>
   hasDuplicates (checkDuplicateDeals toLowerCase st companyName domain) =
     (\<exists>row\<in>set rows. isDuplicateRow toLowerCase headers companyName domain row)"
  by (cases rows)
     (auto simp: checkDuplicateDeals_def Let_def checkDuplicate_loop_filter filter_empty_conv
        simp del: checkDuplicate_loop.simps)

lemma example_deals_sheet:
  "getSheetData example_store ''Deals'' = Inr (hd example_deals # tl example_deals)"
  "getSheetData example_store_admin ''Deals'' = Inr (hd example_deals # tl example_deals)"
  by (simp_all add: getSheetData_def example_store_def example_store_admin_def example_deals_def)

lemma example_deal_fields:
  "map (\<lambda>d. d ''id'') example_deal_objects = [Some ''d1'', Some ''d2'', Some ''d3'']"
  "map (\<lambda>d. d ''submitter_email'') example_deal_objects =
     [Some ''b@x.com'', Some ''a@x.com'', Some ''b@x.com'']"
  by (simp_all add: example_deal_objects_def example_deals_def toRowObject_def assign_def cell_def or_empty_def)

lemma example_deal_objects_unfold:
  "example_deal_objects =
     [toRowObject (hd example_deals) (example_deals ! Suc 0),
      toRowObject (hd example_deals) (example_deals ! 2),
      toRowObject (hd example_deals) (example_deals ! 3)]"
  by (simp add: example_deal_objects_def example_deals_def)

lemma example_owner:
  "toRowObject (hd example_deals) (example_deals ! Suc 0) ''submitter_email'' = Some ''b@x.com''"
  "toRowObject (hd example_deals) (example_deals ! 2) ''submitter_email'' = Some ''a@x.com''"
  "toRowObject (hd example_deals) (example_deals ! 3) ''submitter_email'' = Some ''b@x.com''"
  "toRowObject (hd example_deals) (example_deals ! Suc 0) ''id'' = Some ''d1''"
  "toRowObject (hd example_deals) (example_deals ! 2) ''id'' = Some ''d2''"
  "toRowObject (hd example_deals) (example_deals ! 3) ''id'' = Some ''d3''"
  by (simp_all add: example_deals_def toRowObject_def assign_def cell_def or_empty_def)

lemma example_duplicate_rows:
  "map (isDuplicateRow asciiLowerCase (hd example_deals) ''ACME'' ''zzz.com'') (tl example_deals) =
     [True, False, False]"
  by code_simp




text \<open>
  Claim C9. With the limit parsed to the number \<open>limit\<close>, the list request returns
  the objects of the first \<open>limit\<close> data rows that pass the ownership check and the
  query's filters, in order: every returned deal is among the first \<open>limit\<close> data
  rows, and the answer is the same for every Deals sheet with the same header and the same
  first \<open>limit\<close> data rows, so a deal after that position is never returned, also
  when fewer than \<open>limit\<close> deals come back.
\<close>

theorem getDeals_limit_before_filter:
  assumes "getSheetData st ''Deals'' = Inr (headers # rows)"
    and "query_limit q = Some (int limit)"
  shows "\<exists>returned. getDeals st user q = Inr returned \<and>
           returned = filter (keepsDeal user q) (map (toRowObject headers) (take limit rows)) \<and>
           set returned \<subseteq> toRowObject headers ` set (take limit rows) \<and>
           (\<forall>st' rows'. getSheetData st' ''Deals'' = Inr (headers # rows') \<and>
                take limit rows' = take limit rows \<longrightarrow>
                getDeals st' user q = Inr returned)"
proof -
  have a: "getDeals st user q =
      Inr (filter (keepsDeal user q) (map (toRowObject headers) (take limit rows)))"
    using getDeals_first_rows[OF assms(1), of user q] assms(2) by simp
  have b: "getDeals st' user q =
      Inr (filter (keepsDeal user q) (map (toRowObject headers) (take limit rows)))"
    if "getSheetData st' ''Deals'' = Inr (headers # rows')" "take limit rows' = take limit rows"
    for st' rows'
    using getDeals_first_rows[OF that(1), of user q] assms(2) that(2) by simp
  show ?thesis using a b by auto
qed

theorem getDeals_limit_before_filter_witness:
  "getSheetData example_store ''Deals'' = Inr (hd example_deals # tl example_deals) \<and>
   query_limit example_query = Some (int 2) \<and>
   (\<exists>returned. getDeals example_store (Some example_partner) example_query = Inr returned \<and>
      map (\<lambda>d. d ''id'') returned = [Some ''d1''] \<and>
      map (\<lambda>d. d ''id'') (visibleRows (Some example_partner) example_deal_objects) =
        [Some ''d1'', Some ''d3''])"
proof -
  have q: "query_limit example_query = Some (int 2)" by (simp add: example_query_def)
  have v: "map (\<lambda>d. d ''id'') (visibleRows (Some example_partner) example_deal_objects) =
        [Some ''d1'', Some ''d3'']"
    by (simp add: visibleRows_def canViewDeal_def example_deal_objects_unfold example_owner
        example_partner_def)
  have k: "keepsDeal (Some example_partner) example_query (toRowObject (hd example_deals) (example_deals ! Suc 0))"
    "\<not> keepsDeal (Some example_partner) example_query (toRowObject (hd example_deals) (example_deals ! 2))"
    by (simp_all add: keepsDeal_def canViewDeal_def example_owner example_partner_def
        example_query_def truthy_def)
  from getDeals_limit_before_filter[OF example_deals_sheet(1) q, of "Some example_partner"]
  obtain returned where r: "getDeals example_store (Some example_partner) example_query = Inr returned"
    "returned = filter (keepsDeal (Some example_partner) example_query)
        (map (toRowObject (hd example_deals)) (take 2 (tl example_deals)))"
    by blast
  have t: "map (toRowObject (hd example_deals)) (take 2 (tl example_deals)) =
      [toRowObject (hd example_deals) (example_deals ! Suc 0),
       toRowObject (hd example_deals) (example_deals ! 2)]"
    by (simp add: example_deals_def)
  have "map (\<lambda>d. d ''id'') returned = [Some ''d1'']"
    unfolding r(2) t using k by (simp add: example_owner)
  with r(1) v q example_deals_sheet(1) show ?thesis by simp
qed

text \<open>
  Claim C10. The answer of the duplicate check depends on the Deals sheet and on the two
  fields of the body only: any two requests, with any authorisation header or none, and
  any two values of \<^verbatim>\<open>req.user\<close>, get the same answer. For non-empty inputs
  the answer lists the full row object of every data row whose status is not
  \<^verbatim>\<open>rejected\<close> and whose company name or domain equals the input up to letter
  case; no ownership check is applied.
\<close>

theorem checkDuplicate_ignores_caller:
  "(getSheetData st1 ''Deals'' = getSheetData st2 ''Deals'' \<longrightarrow>
      checkDuplicateRoute toLowerCase verify1 st1 authHeader1 companyName domain =
      checkDuplicateRoute toLowerCase verify2 st2 authHeader2 companyName domain \<and>
      checkDuplicateHandler toLowerCase st1 user1 companyName domain =
      checkDuplicateHandler toLowerCase st2 user2 companyName domain) \<and>
   (\<forall>headers rows c d.
      getSheetData st1 ''Deals'' = Inr (headers # rows) \<and>
      companyName = Some c \<and> c \<noteq> [] \<and> domain = Some d \<and> d \<noteq> [] \<longrightarrow>
        (\<exists>result. checkDuplicateRoute toLowerCase verify1 st1 authHeader1 companyName domain = Next result \<and>
           duplicates result =
             map (toRowObject headers)
               (filter (\<lambda>row. or_empty (cell row (indexOf headers ''status'')) \<noteq> ''rejected'' \<and>
                   (toLowerCase (or_empty (cell row (indexOf headers ''company_name''))) = toLowerCase c \<or>
                    toLowerCase (or_empty (cell row (indexOf headers ''domain''))) = toLowerCase d)) rows) \<and>
           hasDuplicates result = (duplicates result \<noteq> [])))"
proof (intro conjI allI impI)
  assume h: "getSheetData st1 ''Deals'' = getSheetData st2 ''Deals''"
  then have "checkDuplicateDeals toLowerCase st1 c d = checkDuplicateDeals toLowerCase st2 c d" for c d
    by (simp add: checkDuplicateDeals_def)
  then show "checkDuplicateRoute toLowerCase verify1 st1 authHeader1 companyName domain =
      checkDuplicateRoute toLowerCase verify2 st2 authHeader2 companyName domain"
    and "checkDuplicateHandler toLowerCase st1 user1 companyName domain =
      checkDuplicateHandler toLowerCase st2 user2 companyName domain"
    by (simp_all add: checkDuplicateRoute_def checkDuplicateHandler_def)
next
  fix headers rows c d
  assume h: "getSheetData st1 ''Deals'' = Inr (headers # rows) \<and>
      companyName = Some c \<and> c \<noteq> [] \<and> domain = Some d \<and> d \<noteq> []"
  then have g: "getSheetData st1 ''Deals'' = Inr (headers # rows)" by blast
  have f: "isDuplicateRow toLowerCase headers c d =
      (\<lambda>row. or_empty (cell row (indexOf headers ''status'')) \<noteq> ''rejected'' \<and>
                   (toLowerCase (or_empty (cell row (indexOf headers ''company_name''))) = toLowerCase c \<or>
                    toLowerCase (or_empty (cell row (indexOf headers ''domain''))) = toLowerCase d))"
    by (intro ext) (simp add: isDuplicateRow_def)
  have r: "checkDuplicateRoute toLowerCase verify1 st1 authHeader1 companyName domain = Next (checkDuplicateDeals toLowerCase st1 c d)"
    using h by (simp add: checkDuplicateRoute_def checkDuplicateHandler_def truthy_def or_empty_def)
  show "\<exists>result. checkDuplicateRoute toLowerCase verify1 st1 authHeader1 companyName domain = Next result \<and>
           duplicates result =
             map (toRowObject headers)
               (filter (\<lambda>row. or_empty (cell row (indexOf headers ''status'')) \<noteq> ''rejected'' \<and>
                   (toLowerCase (or_empty (cell row (indexOf headers ''company_name''))) = toLowerCase c \<or>
                    toLowerCase (or_empty (cell row (indexOf headers ''domain''))) = toLowerCase d)) rows) \<and>
           hasDuplicates result = (duplicates result \<noteq> [])"
    unfolding r using checkDuplicateDeals_rows[OF g, where toLowerCase = toLowerCase and companyName = c and domain = d]
    by (simp add: f filter_empty_conv)
qed

theorem checkDuplicate_ignores_caller_witness:
  "checkDuplicateRoute asciiLowerCase example_verify example_store None (Some ''ACME'') (Some ''zzz.com'') =
   checkDuplicateRoute asciiLowerCase example_verify example_store_admin (Some ''Bearer good'')
     (Some ''ACME'') (Some ''zzz.com'') \<and>
   (\<exists>result. checkDuplicateRoute asciiLowerCase example_verify example_store None (Some ''ACME'') (Some ''zzz.com'') =
        Next result \<and> hasDuplicates result \<and>
        map (\<lambda>d. d ''id'') (duplicates result) = [Some ''d1''])"
proof -
  note t = checkDuplicate_ignores_caller[where toLowerCase = asciiLowerCase
      and ?st1.0 = example_store and ?st2.0 = example_store_admin
      and ?verify1.0 = example_verify and ?authHeader1.0 = None
      and companyName = "Some ''ACME''" and domain = "Some ''zzz.com''"
      and ?verify2.0 = example_verify and ?authHeader2.0 = "Some ''Bearer good''"
      and ?user1.0 = None and ?user2.0 = None]
  have e: "getSheetData example_store ''Deals'' = getSheetData example_store_admin ''Deals''"
    by (simp add: example_deals_sheet)
  have 1: "checkDuplicateRoute asciiLowerCase example_verify example_store None (Some ''ACME'') (Some ''zzz.com'') =
   checkDuplicateRoute asciiLowerCase example_verify example_store_admin (Some ''Bearer good'')
     (Some ''ACME'') (Some ''zzz.com'')"
    using t[THEN conjunct1] e by blast
  have "\<exists>result. checkDuplicateRoute asciiLowerCase example_verify example_store None (Some ''ACME'') (Some ''zzz.com'') =
        Next result \<and>
      duplicates result = map (toRowObject (hd example_deals))
        (filter (isDuplicateRow asciiLowerCase (hd example_deals) ''ACME'' ''zzz.com'') (tl example_deals)) \<and>
      hasDuplicates result = (duplicates result \<noteq> [])"
    unfolding isDuplicateRow_def
    by (rule t[THEN conjunct2, rule_format, of "hd example_deals" "tl example_deals" "''ACME''" "''zzz.com''"])
       (simp add: example_deals_sheet(1))
  then obtain result where r:
    "checkDuplicateRoute asciiLowerCase example_verify example_store None (Some ''ACME'') (Some ''zzz.com'') = Next result"
    "duplicates result = map (toRowObject (hd example_deals))
        (filter (isDuplicateRow asciiLowerCase (hd example_deals) ''ACME'' ''zzz.com'') (tl example_deals))"
    "hasDuplicates result = (duplicates result \<noteq> [])"
    by blast
  have f: "filter (isDuplicateRow asciiLowerCase (hd example_deals) ''ACME'' ''zzz.com'') (tl example_deals) =
      [example_deals ! Suc 0]"
    using example_duplicate_rows by (simp add: example_deals_def)
  have 2: "map (\<lambda>d. d ''id'') (duplicates result) = [Some ''d1'']" "hasDuplicates result"
    unfolding r(3) r(2) f by (simp_all add: example_owner)
  have "\<exists>result. checkDuplicateRoute asciiLowerCase example_verify example_store None (Some ''ACME'') (Some ''zzz.com'') =
        Next result \<and> hasDuplicates result \<and>
        map (\<lambda>d. d ''id'') (duplicates result) = [Some ''d1'']"
    by (intro exI[of _ result] conjI r(1) 2)
  with 1 show ?thesis by (rule conjI)
qed

section \<open>Appending rows and creating users\<close>

lemma getSheetData_update_same:
  "getSheetData (AList.update sheetName (Inr g) st) sheetName = Inr g"
  by (simp add: getSheetData_def update_conv')

lemma getSheetData_update_other:
  "other \<noteq> sheetName \<Longrightarrow>
   getSheetData (AList.update sheetName v st) other = getSheetData st other"
  by (simp add: getSheetData_def update_conv')

lemma appendToSheet_ok:
  "getSheetData st sheetName = Inr g \<Longrightarrow>
   appendToSheet entered st sheetName vs =
     Inr (AList.update sheetName
            (Inr (if storedRow entered vs = [] then g else g @ [storedRow entered vs])) st)"
  by (simp add: appendToSheet_def)

lemma find_append_last:
  "\<forall>x\<in>set xs. \<not> P x \<Longrightarrow> P y \<Longrightarrow> find P (xs @ [y]) = Some y"
  by (induction xs) auto

lemma dropTrailingBlanks_nth:
  "k < length (dropTrailingBlanks xs) \<Longrightarrow> k < length xs \<and> dropTrailingBlanks xs ! k = xs ! k"
proof (induction xs arbitrary: k)
  case Nil
  then show ?case by simp
next
  case (Cons c cs)
  then show ?case by (cases k) (auto split: if_splits)
qed

lemma dropTrailingBlanks_dropped:
  "k < length xs \<Longrightarrow> \<not> k < length (dropTrailingBlanks xs) \<Longrightarrow> xs ! k = []"
proof (induction xs arbitrary: k)
  case Nil
  then show ?case by simp
next
  case (Cons c cs)
  then show ?case by (cases k) (auto split: if_splits)
qed

lemma cell_stored_nonblank:
  assumes "k < length xs" and "xs ! k \<noteq> []"
  shows "cell (dropTrailingBlanks xs) (int k) = Some (xs ! k)"
proof -
  have "k < length (dropTrailingBlanks xs)"
    using assms dropTrailingBlanks_dropped by blast
  then show ?thesis using dropTrailingBlanks_nth[of k xs] by (simp add: cell_def)
qed

lemma or_empty_cell_stored:
  "or_empty (cell (dropTrailingBlanks xs) (int k)) = or_empty (cell xs (int k))"
proof (cases "k < length (dropTrailingBlanks xs)")
  case True
  then show ?thesis using dropTrailingBlanks_nth[of k xs] by (simp add: or_empty_cell)
next
  case False
  then show ?thesis using dropTrailingBlanks_dropped[of k xs] by (simp add: or_empty_cell)
qed

lemma forEach_header_stored:
  "forEach_header hs (dropTrailingBlanks xs) i obj = forEach_header hs xs i obj"
  by (induction hs arbitrary: i obj) (simp_all add: or_empty_cell_stored)

lemma toRowObject_stored: "toRowObject headers (dropTrailingBlanks xs) = toRowObject headers xs"
  by (simp add: toRowObject_def forEach_header_stored)

lemma map_entered_strings: "\<forall>v\<in>set vs. entered (Str v) = v \<Longrightarrow> map entered (map Str vs) = vs"
  by (induction vs) auto

lemma split_from_no_sep: "sep \<notin> set s \<Longrightarrow> split_from sep s piece = [piece @ s]"
  by (induction s arbitrary: piece) auto

lemma split_from_first_sep:
  "sep \<notin> set l \<Longrightarrow> split_from sep (l @ sep # r) piece = (piece @ l) # split_from sep r []"
  by (induction l arbitrary: piece) auto

lemma split_at_sign:
  "CHR ''@'' \<notin> set l \<Longrightarrow> CHR ''@'' \<notin> set d \<Longrightarrow> split (l @ CHR ''@'' # d) (CHR ''@'') = [l, d]"
  by (simp add: split_def split_from_first_sep split_from_no_sep)

lemma domainMappings_nonempty: "map_of domainMappings d = Some c \<Longrightarrow> c \<noteq> []"
  by (auto simp: domainMappings_def split: if_splits)

lemma getPartnerCompanyFromEmail_domain:
  assumes "CHR ''@'' \<notin> set l" "CHR ''@'' \<notin> set d"
  shows "getPartnerCompanyFromEmail toLowerCase (l @ CHR ''@'' # d) =
     (case map_of domainMappings (toLowerCase d) of
        Some company \<Rightarrow> Str company
      | None \<Rightarrow>
          (if toLowerCase d \<in> set objectPrototypeMembers then Inherited (toLowerCase d)
           else Str ''External Partner''))"
proof (cases "map_of domainMappings (toLowerCase d)")
  case None
  then show ?thesis
    by (simp add: getPartnerCompanyFromEmail_def domainMappings_lookup_def split_at_sign[OF assms]
          element_def)
next
  case (Some c)
  then have "c \<noteq> []" by (rule domainMappings_nonempty)
  with Some show ?thesis
    by (simp add: getPartnerCompanyFromEmail_def domainMappings_lookup_def split_at_sign[OF assms]
          element_def)
qed

lemma googleLogin_new_user:
  assumes "profile_email p = Some email" "email \<noteq> []"
    and "getSheetData st ''Users'' = Inr g"
    and "findRowByValue st ''Users'' ''email'' (Some email) = Inr None"
  shows "googleLogin toLowerCase entered sign now st p =
     (AList.update ''Users''
        (Inr (if storedRow entered (newUserData toLowerCase now p email) = [] then g
              else g @ [storedRow entered (newUserData toLowerCase now p email)])) st,
      case findRowByValue
             (AList.update ''Users''
                (Inr (if storedRow entered (newUserData toLowerCase now p email) = [] then g
                      else g @ [storedRow entered (newUserData toLowerCase now p email)])) st)
             ''Users'' ''email'' (Some email) of
        Inl e \<Rightarrow> Inl (AuthenticationFailed e)
      | Inr None \<Rightarrow> Inl (AuthenticationFailed TypeError)
      | Inr (Some user) \<Rightarrow> issueLogin sign (Some user))"
  using assms
  by (simp add: googleLogin_def googleLogin_try_def appendToSheet_ok issueLogin_def Let_def
        split: sum.splits option.splits)

lemma findRowByValue_None_rows:
  assumes "getSheetData st sheetName = Inr (headers # rows)"
    and "findRowByValue st sheetName columnName (Some v) = Inr None"
    and "indexOf headers columnName = int k"
  shows "\<forall>row\<in>set rows. \<not> cell row (int k) = Some v"
proof -
  have "findRow_loop headers (int k) (Some v) rows = None"
    using assms by (simp add: findRowByValue_def)
  then show ?thesis by (simp add: findRow_loop_find find_None_iff)
qed

lemma users_header_email: "indexOf users_header ''email'' = int 1"
  by (simp add: users_header_def indexOf_def)

lemma new_user_object:
  "toRowObject users_header [a, b, c, d, e, f, g, h] ''id'' = Some a"
  "toRowObject users_header [a, b, c, d, e, f, g, h] ''email'' = Some b"
  "toRowObject users_header [a, b, c, d, e, f, g, h] ''first_name'' = Some c"
  "toRowObject users_header [a, b, c, d, e, f, g, h] ''last_name'' = Some d"
  "toRowObject users_header [a, b, c, d, e, f, g, h] ''partner_company'' = Some e"
  "toRowObject users_header [a, b, c, d, e, f, g, h] ''role'' = Some f"
  "toRowObject users_header [a, b, c, d, e, f, g, h] ''status'' = Some g"
  by (simp_all add: users_header_def toRowObject_def assign_def cell_def or_empty_def)

lemma example_company:
  "getPartnerCompanyFromEmail asciiLowerCase ''c@TechFlow.com'' = Str ''TechFlow Solutions''"
  by code_simp

text \<open>
  Claim C7, as the code has it. A sheet has a header without repetitions, and the service
  reads every appended string back as it was sent. A row of strings is appended that
  follows the header's order (it may stop before the last column), and one of its values
  is not blank and occurs in its column in no earlier data row. Then the append succeeds
  and adds the row without its trailing blank cells, and \<^verbatim>\<open>findRowByValue\<close> on
  that column and value returns an object whose keys are the header names other than
  \<^verbatim>\<open>__proto__\<close> and whose value under the \<open>k\<close>-th such name is the \<open>k\<close>-th
  appended value, the empty string where no value was given or the value is blank.
\<close>

theorem append_then_find_roundtrip:
  assumes "getSheetData st sheetName = Inr (headers # rows)"
    and "distinct headers"
    and "length vs \<le> length headers"
    and "j < length vs"
    and "vs ! j \<noteq> []"
    and "\<forall>v\<in>set vs. entered (Str v) = v"
    and "\<forall>row\<in>set rows. \<not> (j < length row \<and> row ! j = vs ! j)"
  shows "\<exists>st' obj. appendToSheet entered st sheetName (map Str vs) = Inr st' \<and>
           getSheetData st' sheetName = Inr (headers # rows @ [dropTrailingBlanks vs]) \<and>
           findRowByValue st' sheetName (headers ! j) (Some (vs ! j)) = Inr (Some obj) \<and>
           dom obj = set headers - {''__proto__''} \<and>
           (\<forall>k<length headers. headers ! k \<noteq> ''__proto__'' \<longrightarrow>
              obj (headers ! k) = Some (if k < length vs then vs ! k else []))"
proof -
  let ?row = "dropTrailingBlanks vs"
  let ?st' = "AList.update sheetName (Inr (headers # rows @ [?row])) st"
  have sr: "storedRow entered (map Str vs) = ?row"
    unfolding storedRow_def using map_entered_strings[OF assms(6)] by (simp only:)
  have cj: "cell ?row (int j) = Some (vs ! j)"
    using assms(4,5) by (rule cell_stored_nonblank)
  then have ne: "?row \<noteq> []" by (auto simp: cell_def)
  have a: "appendToSheet entered st sheetName (map Str vs) = Inr ?st'"
    using appendToSheet_ok[OF assms(1), of entered "map Str vs"] sr ne by simp
  have g: "getSheetData ?st' sheetName = Inr (headers # rows @ [?row])"
    by (simp add: getSheetData_update_same)
  have jh: "j < length headers" using assms(3,4) by linarith
  have ix: "indexOf headers (headers ! j) = int j"
    using assms(2) jh by (rule indexOf_distinct)
  have fnd: "find (\<lambda>row. cell row (int j) = Some (vs ! j)) (rows @ [?row]) = Some ?row"
    using assms(7) cj by (intro find_append_last) (simp_all add: cell_Some_iff)
  have f: "findRowByValue ?st' sheetName (headers ! j) (Some (vs ! j)) =
      Inr (Some (toRowObject headers vs))"
    by (simp add: findRowByValue_def g ix findRow_loop_find fnd toRowObject_stored)
  have v: "\<forall>k<length headers. headers ! k \<noteq> ''__proto__'' \<longrightarrow>
      toRowObject headers vs (headers ! k) = Some (if k < length vs then vs ! k else [])"
    using assms(2) by (simp add: toRowObject_nth or_empty_cell)
  show ?thesis
    using a g f v dom_toRowObject[of headers vs] by blast
qed

theorem append_then_find_roundtrip_witness:
  "\<exists>st' obj. appendToSheet example_entered example_store ''Users''
                 (map Str [''u3'', ''c@x.com'', ''user'', '''']) = Inr st' \<and>
      getSheetData st' ''Users'' = Inr (example_users @ [[''u3'', ''c@x.com'', ''user'']]) \<and>
      findRowByValue st' ''Users'' ''email'' (Some ''c@x.com'') = Inr (Some obj) \<and>
      dom obj = {''id'', ''email'', ''role'', ''status''} \<and>
      obj ''id'' = Some ''u3'' \<and> obj ''status'' = Some []"
proof -
  have g: "getSheetData example_store ''Users'' =
      Inr ([''id'', ''email'', ''role'', ''status''] #
           [[''u1'', ''a@x.com'', ''user''], [''u2'', ''b@x.com'', ''user'', ''active'']])"
    by (simp add: getSheetData_def example_store_def example_users_def)
  have d: "distinct [''id'', ''email'', ''role'', ''status'']" by simp
  have l: "length [''u3'', ''c@x.com'', ''user'', ''''] \<le> length [''id'', ''email'', ''role'', ''status'']"
    by simp
  have j: "Suc 0 < length [''u3'', ''c@x.com'', ''user'', '''']" by simp
  have n: "[''u3'', ''c@x.com'', ''user'', ''''] ! Suc 0 \<noteq> []" by simp
  have e: "\<forall>v\<in>set [''u3'', ''c@x.com'', ''user'', '''']. example_entered (Str v) = v" by simp
  have u: "\<forall>row\<in>set [[''u1'', ''a@x.com'', ''user''], [''u2'', ''b@x.com'', ''user'', ''active'']].
      \<not> (Suc 0 < length row \<and> row ! Suc 0 = [''u3'', ''c@x.com'', ''user'', ''''] ! Suc 0)"
    by simp
  from append_then_find_roundtrip[OF g d l j n e u]
  obtain st' obj where r:
    "appendToSheet example_entered example_store ''Users''
       (map Str [''u3'', ''c@x.com'', ''user'', '''']) = Inr st'"
    "getSheetData st' ''Users'' =
       Inr ([''id'', ''email'', ''role'', ''status''] #
            [[''u1'', ''a@x.com'', ''user''], [''u2'', ''b@x.com'', ''user'', ''active'']] @
            [dropTrailingBlanks [''u3'', ''c@x.com'', ''user'', '''']])"
    "findRowByValue st' ''Users'' ([''id'', ''email'', ''role'', ''status''] ! Suc 0)
       (Some ([''u3'', ''c@x.com'', ''user'', ''''] ! Suc 0)) = Inr (Some obj)"
    "dom obj = set [''id'', ''email'', ''role'', ''status''] - {''__proto__''}"
    "\<forall>k<length [''id'', ''email'', ''role'', ''status''].
        [''id'', ''email'', ''role'', ''status''] ! k \<noteq> ''__proto__'' \<longrightarrow>
        obj ([''id'', ''email'', ''role'', ''status''] ! k) =
          Some (if k < length [''u3'', ''c@x.com'', ''user'', '''']
                then [''u3'', ''c@x.com'', ''user'', ''''] ! k else [])"
    by blast
  have i: "obj ''id'' = Some ''u3''" using r(5)[rule_format, of 0] by simp
  have s: "obj ''status'' = Some []" using r(5)[rule_format, of 3] by simp
  from r(3) have f: "findRowByValue st' ''Users'' ''email'' (Some ''c@x.com'') = Inr (Some obj)" by simp
  from r(4) have dm: "dom obj = {''id'', ''email'', ''role'', ''status''}" by auto
  from r(2) have gs: "getSheetData st' ''Users'' = Inr (example_users @ [[''u3'', ''c@x.com'', ''user'']])"
    by (simp add: example_users_def)
  show ?thesis by (intro exI[of _ st'] exI[of _ obj] conjI r(1) gs f dm i s)
qed

text \<open>
  The claim as written promises the round trip on any column with a unique value. A blank
  value in the last position is not stored, so the lookup by it finds nothing; and a value
  that the service reads as a number comes back in the number's text, so the lookup by the
  value sent finds nothing and the row holds another text.
\<close>

theorem append_then_find_roundtrip_counterexample:
  "appendToSheet example_entered [(''Deals'', Inr [[''id'', ''note'']])] ''Deals'' [Str ''7'', Str ''''] =
     Inr [(''Deals'', Inr [[''id'', ''note''], [''7'']])] \<and>
   findRowByValue [(''Deals'', Inr [[''id'', ''note''], [''7'']])] ''Deals'' ''note'' (Some '''') = Inr None \<and>
   appendToSheet example_entered_number [(''Deals'', Inr [[''id'', ''note'']])] ''Deals''
       [Str ''007'', Str ''x''] =
     Inr [(''Deals'', Inr [[''id'', ''note''], [''7'', ''x'']])] \<and>
   findRowByValue [(''Deals'', Inr [[''id'', ''note''], [''7'', ''x'']])] ''Deals'' ''id'' (Some ''007'') =
     Inr None"
  by (simp add: appendToSheet_def getSheetData_def storedRow_def AList.update.simps
        findRowByValue_def indexOf_def cell_def)

text \<open>
  Claim C8, as the code has it. The profile has a non-empty email for which the lookup in
  the Users sheet finds no row. Then \<^verbatim>\<open>googleLogin\<close> sends exactly one append to
  the Users sheet and leaves every other sheet as it is; the row sent holds the external
  id, the email, the names (with their defaults), the affiliation of the email's domain,
  role \<^verbatim>\<open>user\<close>, status \<^verbatim>\<open>active\<close> and the current time. What the login
  returns is built from the row that the second lookup by email reads back from the new
  store, not from the values sent; when that lookup throws or finds nothing the login
  fails. The affiliation is the table's entry of the lower-cased domain; without entry it
  is the member that every object inherits under that name, if there is one, and
  \<^verbatim>\<open>External Partner\<close> otherwise. On a Users sheet with the documented header and
  a service that reads strings back as sent, one row is added and the login returns, with
  the email and role just written and with the affiliation when it is a string.
\<close>

theorem googleLogin_creates_user:
  assumes "profile_email p = Some email" and "email \<noteq> []"
    and "getSheetData st ''Users'' = Inr g"
    and "findRowByValue st ''Users'' ''email'' (Some email) = Inr None"
  shows "appendToSheet entered st ''Users''
           [(case sub p of None \<Rightarrow> Undefined | Some googleId \<Rightarrow> Str googleId), Str email,
            Str (or_default (given_name p) ''Unknown''), Str (or_default (family_name p) ''User''),
            getPartnerCompanyFromEmail toLowerCase email, Str ''user'', Str ''active'', Str now] =
           Inr (fst (googleLogin toLowerCase entered sign now st p)) \<and>
     (\<forall>other. other \<noteq> ''Users'' \<longrightarrow>
        getSheetData (fst (googleLogin toLowerCase entered sign now st p)) other =
        getSheetData st other) \<and>
     snd (googleLogin toLowerCase entered sign now st p) =
       (case findRowByValue (fst (googleLogin toLowerCase entered sign now st p))
               ''Users'' ''email'' (Some email) of
          Inl e \<Rightarrow> Inl (AuthenticationFailed e)
        | Inr None \<Rightarrow> Inl (AuthenticationFailed TypeError)
        | Inr (Some user) \<Rightarrow>
            Inr \<lparr>login_user =
                   \<lparr>login_id = user ''id'', login_email = user ''email'',
                    login_firstName = user ''first_name'', login_lastName = user ''last_name'',
                    login_role = user ''role'', login_partnerId = user ''partner_company'',
                    login_partnerName = user ''partner_company''\<rparr>,
                 accessToken =
                   sign \<lparr>payload_id = user ''id'', payload_email = user ''email'',
                         payload_role = user ''role'',
                         payload_partnerId = user ''partner_company''\<rparr>\<rparr>) \<and>
     (\<forall>l d. email = l @ CHR ''@'' # d \<and> CHR ''@'' \<notin> set l \<and> CHR ''@'' \<notin> set d \<longrightarrow>
        getPartnerCompanyFromEmail toLowerCase email =
          (case map_of domainMappings (toLowerCase d) of
             Some company \<Rightarrow> Str company
           | None \<Rightarrow>
               (if toLowerCase d \<in> set objectPrototypeMembers then Inherited (toLowerCase d)
                else Str ''External Partner''))) \<and>
     (\<forall>rows. g = users_header # rows \<and> (\<forall>s. entered (Str s) = s) \<longrightarrow>
        (\<exists>row r. getSheetData (fst (googleLogin toLowerCase entered sign now st p)) ''Users'' =
               Inr (g @ [row]) \<and>
           snd (googleLogin toLowerCase entered sign now st p) = Inr r \<and>
           login_email (login_user r) = Some email \<and>
           login_role (login_user r) = Some ''user'' \<and>
           (\<forall>company. getPartnerCompanyFromEmail toLowerCase email = Str company \<longrightarrow>
              login_partnerId (login_user r) = Some company)))"
proof -
  let ?userData = "newUserData toLowerCase now p email"
  let ?grid = "if storedRow entered ?userData = [] then g else g @ [storedRow entered ?userData]"
  let ?st' = "AList.update ''Users'' (Inr ?grid) st"
  note run = googleLogin_new_user[OF assms, of toLowerCase entered sign now]
  have 1: "fst (googleLogin toLowerCase entered sign now st p) = ?st'" by (simp add: run)
  have 2: "appendToSheet entered st ''Users''
           [(case sub p of None \<Rightarrow> Undefined | Some googleId \<Rightarrow> Str googleId), Str email,
            Str (or_default (given_name p) ''Unknown''), Str (or_default (family_name p) ''User''),
            getPartnerCompanyFromEmail toLowerCase email, Str ''user'', Str ''active'', Str now] =
           Inr ?st'"
    using appendToSheet_ok[OF assms(3), of entered ?userData] by (simp add: newUserData_def)
  have 3: "\<forall>other. other \<noteq> ''Users'' \<longrightarrow> getSheetData ?st' other = getSheetData st other"
    by (simp add: getSheetData_update_other)
  have 4: "snd (googleLogin toLowerCase entered sign now st p) =
       (case findRowByValue ?st' ''Users'' ''email'' (Some email) of
          Inl e \<Rightarrow> Inl (AuthenticationFailed e)
        | Inr None \<Rightarrow> Inl (AuthenticationFailed TypeError)
        | Inr (Some user) \<Rightarrow>
            Inr \<lparr>login_user =
                   \<lparr>login_id = user ''id'', login_email = user ''email'',
                    login_firstName = user ''first_name'', login_lastName = user ''last_name'',
                    login_role = user ''role'', login_partnerId = user ''partner_company'',
                    login_partnerName = user ''partner_company''\<rparr>,
                 accessToken =
                   sign \<lparr>payload_id = user ''id'', payload_email = user ''email'',
                         payload_role = user ''role'',
                         payload_partnerId = user ''partner_company''\<rparr>\<rparr>)"
    by (simp add: run issueLogin_def Let_def split: sum.splits option.splits)
  have 5: "\<forall>l d. email = l @ CHR ''@'' # d \<and> CHR ''@'' \<notin> set l \<and> CHR ''@'' \<notin> set d \<longrightarrow>
        getPartnerCompanyFromEmail toLowerCase email =
          (case map_of domainMappings (toLowerCase d) of
             Some company \<Rightarrow> Str company
           | None \<Rightarrow>
               (if toLowerCase d \<in> set objectPrototypeMembers then Inherited (toLowerCase d)
                else Str ''External Partner''))"
    using getPartnerCompanyFromEmail_domain by blast
  have 6: "\<forall>rows. g = users_header # rows \<and> (\<forall>s. entered (Str s) = s) \<longrightarrow>
        (\<exists>row r. getSheetData ?st' ''Users'' = Inr (g @ [row]) \<and>
           snd (googleLogin toLowerCase entered sign now st p) = Inr r \<and>
           login_email (login_user r) = Some email \<and>
           login_role (login_user r) = Some ''user'' \<and>
           (\<forall>company. getPartnerCompanyFromEmail toLowerCase email = Str company \<longrightarrow>
              login_partnerId (login_user r) = Some company))"
  proof (intro allI impI)
    fix rows assume h: "g = users_header # rows \<and> (\<forall>s. entered (Str s) = s)"
    then have g: "g = users_header # rows" and en: "\<And>s. entered (Str s) = s" by blast+
    let ?sent = "map entered ?userData"
    have len: "length ?sent = 8" by (simp add: newUserData_def)
    have e1: "?sent ! 1 = email" by (simp add: newUserData_def en)
    have c1: "cell (storedRow entered ?userData) (int 1) = Some email"
      unfolding storedRow_def using cell_stored_nonblank[of 1 ?sent] len e1 assms(2) by simp
    then have ne: "storedRow entered ?userData \<noteq> []" by (auto simp: cell_def)
    have sheet: "getSheetData ?st' ''Users'' = Inr (g @ [storedRow entered ?userData])"
      using ne by (simp add: getSheetData_update_same)
    have none: "\<forall>row\<in>set rows. \<not> cell row (int 1) = Some email"
      using assms(3,4)[unfolded g] users_header_email by (rule findRowByValue_None_rows)
    have fnd: "find (\<lambda>row. cell row (int 1) = Some email) (rows @ [storedRow entered ?userData]) =
        Some (storedRow entered ?userData)"
      using none c1 by (rule find_append_last)
    have obj: "toRowObject users_header (storedRow entered ?userData) = toRowObject users_header ?sent"
      by (simp add: storedRow_def toRowObject_stored)
    have reread: "findRowByValue ?st' ''Users'' ''email'' (Some email) =
        Inr (Some (toRowObject users_header ?sent))"
      using users_header_email fnd
      by (simp add: findRowByValue_def sheet g findRow_loop_find obj)
    have sent: "?sent = [entered (case sub p of None \<Rightarrow> Undefined | Some googleId \<Rightarrow> Str googleId),
        email, or_default (given_name p) ''Unknown'', or_default (family_name p) ''User'',
        entered (getPartnerCompanyFromEmail toLowerCase email), ''user'', ''active'', now]"
      by (simp add: newUserData_def en)
    show "\<exists>row r. getSheetData ?st' ''Users'' = Inr (g @ [row]) \<and>
           snd (googleLogin toLowerCase entered sign now st p) = Inr r \<and>
           login_email (login_user r) = Some email \<and>
           login_role (login_user r) = Some ''user'' \<and>
           (\<forall>company. getPartnerCompanyFromEmail toLowerCase email = Str company \<longrightarrow>
              login_partnerId (login_user r) = Some company)"
      unfolding 4 reread sent using sheet
      by (auto simp: new_user_object en)
  qed
  from 2 3 4 5 6 show ?thesis unfolding 1 by (intro conjI)
qed

theorem googleLogin_creates_user_witness:
  "getSheetData (fst (googleLogin asciiLowerCase example_entered example_sign
        ''2025-01-01T00:00:00.000Z'' example_login_store example_profile)) ''Users'' =
     Inr [users_header,
          [''g3'', ''c@TechFlow.com'', ''Unknown'', ''Wu'', ''TechFlow Solutions'', ''user'', ''active'',
           ''2025-01-01T00:00:00.000Z'']] \<and>
   (\<exists>r. snd (googleLogin asciiLowerCase example_entered example_sign
        ''2025-01-01T00:00:00.000Z'' example_login_store example_profile) = Inr r \<and>
      login_email (login_user r) = Some ''c@TechFlow.com'' \<and>
      login_role (login_user r) = Some ''user'' \<and>
      login_partnerId (login_user r) = Some ''TechFlow Solutions'')"
proof -
  have e: "profile_email example_profile = Some ''c@TechFlow.com''" and ne: "''c@TechFlow.com'' \<noteq> []"
    by (simp_all add: example_profile_def)
  have g: "getSheetData example_login_store ''Users'' = Inr [users_header]"
    by (simp add: getSheetData_def example_login_store_def)
  have f: "findRowByValue example_login_store ''Users'' ''email'' (Some ''c@TechFlow.com'') = Inr None"
    using users_header_email by (simp add: findRowByValue_def g)
  have en: "\<forall>s. example_entered (Str s) = s" by simp
  note t = googleLogin_creates_user[OF e ne g f, where toLowerCase = asciiLowerCase
      and entered = example_entered and sign = example_sign and now = "''2025-01-01T00:00:00.000Z''"]
  have a: "appendToSheet example_entered example_login_store ''Users''
      [Str ''g3'', Str ''c@TechFlow.com'', Str ''Unknown'', Str ''Wu'', Str ''TechFlow Solutions'',
       Str ''user'', Str ''active'', Str ''2025-01-01T00:00:00.000Z''] =
      Inr (fst (googleLogin asciiLowerCase example_entered example_sign
        ''2025-01-01T00:00:00.000Z'' example_login_store example_profile))"
    using t[THEN conjunct1] by (simp add: example_company example_profile_def or_default_def)
  have 1: "getSheetData (fst (googleLogin asciiLowerCase example_entered example_sign
        ''2025-01-01T00:00:00.000Z'' example_login_store example_profile)) ''Users'' =
     Inr [users_header,
          [''g3'', ''c@TechFlow.com'', ''Unknown'', ''Wu'', ''TechFlow Solutions'', ''user'', ''active'',
           ''2025-01-01T00:00:00.000Z'']]"
    using a[symmetric]
    by (simp add: appendToSheet_def g storedRow_def getSheetData_update_same)
  have 2: "\<exists>r. snd (googleLogin asciiLowerCase example_entered example_sign
        ''2025-01-01T00:00:00.000Z'' example_login_store example_profile) = Inr r \<and>
      login_email (login_user r) = Some ''c@TechFlow.com'' \<and>
      login_role (login_user r) = Some ''user'' \<and>
      login_partnerId (login_user r) = Some ''TechFlow Solutions''"
    using t[THEN conjunct2, THEN conjunct2, THEN conjunct2, THEN conjunct2, rule_format, of "[]"] en
    by (auto simp: example_company)
  from 1 2 show ?thesis by (rule conjI)
qed

text \<open>
  The claim as written gives every unmatched domain the generic affiliation and has the
  login return the row read back. The domain \<^verbatim>\<open>constructor\<close> has no entry in
  the table and gets the member inherited under that name; and on a Users sheet without
  any row the lookup finds no user, the row is appended as the sheet's first row, and the
  second lookup throws for want of an email column.
\<close>

theorem googleLogin_creates_user_counterexample:
  "map_of domainMappings (asciiLowerCase ''constructor'') = None \<and>
   getPartnerCompanyFromEmail asciiLowerCase ''x@constructor'' = Inherited ''constructor'' \<and>
   findRowByValue [(''Users'', Inr [])] ''Users'' ''email'' (Some ''c@TechFlow.com'') = Inr None \<and>
   googleLogin asciiLowerCase example_entered example_sign ''2025-01-01T00:00:00.000Z''
       [(''Users'', Inr [])] example_profile =
     ([(''Users'', Inr [[''g3'', ''c@TechFlow.com'', ''Unknown'', ''Wu'', ''TechFlow Solutions'',
                         ''user'', ''active'', ''2025-01-01T00:00:00.000Z'']])],
      Inl (AuthenticationFailed (ColumnNotFound ''email'' ''Users'')))"
proof -
  have a: "map_of domainMappings (asciiLowerCase ''constructor'') = None"
    by code_simp
  have b: "getPartnerCompanyFromEmail asciiLowerCase ''x@constructor'' = Inherited ''constructor''"
    by code_simp
  have c: "findRowByValue [(''Users'', Inr [])] ''Users'' ''email'' (Some ''c@TechFlow.com'') = Inr None"
    by (simp add: findRowByValue_def getSheetData_def)
  have d: "googleLogin asciiLowerCase example_entered example_sign ''2025-01-01T00:00:00.000Z''
       [(''Users'', Inr [])] example_profile =
     ([(''Users'', Inr [[''g3'', ''c@TechFlow.com'', ''Unknown'', ''Wu'', ''TechFlow Solutions'',
                         ''user'', ''active'', ''2025-01-01T00:00:00.000Z'']])],
      Inl (AuthenticationFailed (ColumnNotFound ''email'' ''Users'')))"
    by code_simp
  from a b c d show ?thesis by (intro conjI)
qed

end
